theory Spec2Isabelle
  imports Main
begin

section \<open>Python values\<close>

text \<open>
  The documents handled by \<^verbatim>\<open>ccswitch.py\<close> are what \<^verbatim>\<open>json.load\<close> returns: \<^verbatim>\<open>None\<close>,
  booleans, integers, strings, lists and dictionaries with string keys. A dictionary is an
  association list in insertion order, the order in which Python iterates over it.
  Numbers with a fraction or an exponent are left out (no operation of the program
  looks at one), and strings are sequences of ASCII characters.
\<close>

datatype json =
    JNull
  | JBool bool
  | JInt int
  | JStr string
  | JList "json list"
  | JDict "(string \<times> json) list"

text \<open>The exceptions that the program raises or meets.\<close>

datatype exn =
    JSONDecodeError
  | UnicodeDecodeError
  | FileNotFoundError
  | ValueError
  | IOError
  | TypeError
  | KeyError
  | AttributeError
  | EOFError
  | Unmodelled
      \<comment> \<open>not an exception: \<^verbatim>\<open>str()\<close> of a list or a dictionary (Python's \<^verbatim>\<open>repr\<close>) and
          \<^verbatim>\<open>==\<close> against a value that is no integer, which the model does not render\<close>

text \<open>
  \<^verbatim>\<open>except C:\<close> catches the instances of \<^verbatim>\<open>C\<close> and of its subclasses: \<^verbatim>\<open>JSONDecodeError\<close> and
  \<^verbatim>\<open>UnicodeDecodeError\<close> are subclasses of \<^verbatim>\<open>ValueError\<close>, \<^verbatim>\<open>FileNotFoundError\<close> is a subclass
  of \<^verbatim>\<open>OSError\<close>, of which \<^verbatim>\<open>IOError\<close> is another name.
\<close>

definition is_subclass :: "exn \<Rightarrow> exn \<Rightarrow> bool" where
  "is_subclass e c =
     (e = c \<or> (c = ValueError \<and> (e = JSONDecodeError \<or> e = UnicodeDecodeError))
        \<or> (c = IOError \<and> e = FileNotFoundError))"

definition and_then :: "exn + 'a \<Rightarrow> ('a \<Rightarrow> exn + 'b) \<Rightarrow> exn + 'b" where
  "and_then m f = (case m of Inl e \<Rightarrow> Inl e | Inr x \<Rightarrow> f x)"

text \<open>Truth value of a document, as \<^verbatim>\<open>if not x\<close> tests it.\<close>

fun truthy :: "json \<Rightarrow> bool" where
  "truthy JNull = False"
| "truthy (JBool b) = b"
| "truthy (JInt n) = (n \<noteq> 0)"
| "truthy (JStr s) = (s \<noteq> [])"
| "truthy (JList xs) = (xs \<noteq> [])"
| "truthy (JDict kvs) = (kvs \<noteq> [])"

text \<open>\<^verbatim>\<open>isinstance(x, int)\<close> holds of booleans too: \<^verbatim>\<open>bool\<close> is a subclass of \<^verbatim>\<open>int\<close>.\<close>

fun isinstance_int :: "json \<Rightarrow> bool" where
  "isinstance_int (JInt n) = True"
| "isinstance_int (JBool b) = True"
| "isinstance_int j = False"

fun isinstance_list :: "json \<Rightarrow> bool" where
  "isinstance_list (JList xs) = True"
| "isinstance_list j = False"

fun isinstance_dict :: "json \<Rightarrow> bool" where
  "isinstance_dict (JDict kvs) = True"
| "isinstance_dict j = False"

text \<open>The integer that an \<^verbatim>\<open>int\<close> instance stands for (\<^verbatim>\<open>True\<close> is 1, \<^verbatim>\<open>False\<close> is 0).\<close>

fun int_value :: "json \<Rightarrow> int option" where
  "int_value (JInt n) = Some n"
| "int_value (JBool b) = Some (if b then 1 else 0)"
| "int_value j = None"

text \<open>\<^verbatim>\<open>x == n\<close> for an integer \<^verbatim>\<open>n\<close>.\<close>

definition py_eq_int :: "json \<Rightarrow> int \<Rightarrow> bool" where
  "py_eq_int x n = (int_value x = Some n)"

text \<open>Substring test, \<^verbatim>\<open>k in s\<close> for two strings.\<close>

fun starts_with :: "string \<Rightarrow> string \<Rightarrow> bool" where
  "starts_with [] s = True"
| "starts_with (c # k) [] = False"
| "starts_with (c # k) (d # s) = (c = d \<and> starts_with k s)"

fun is_substring :: "string \<Rightarrow> string \<Rightarrow> bool" where
  "is_substring k [] = (k = [])"
| "is_substring k (d # s) = (starts_with k (d # s) \<or> is_substring k s)"

text \<open>\<^verbatim>\<open>k in x\<close> for a string \<^verbatim>\<open>k\<close>: key of a dictionary, element of a list, substring of a string.\<close>

fun py_in :: "string \<Rightarrow> json \<Rightarrow> exn + bool" where
  "py_in k (JDict kvs) = Inr (map_of kvs k \<noteq> None)"
| "py_in k (JList xs) = Inr (JStr k \<in> set xs)"
| "py_in k (JStr s) = Inr (is_substring k s)"
| "py_in k j = Inl TypeError"

text \<open>\<^verbatim>\<open>x[k]\<close> for a string \<^verbatim>\<open>k\<close>.\<close>

fun py_getitem :: "json \<Rightarrow> string \<Rightarrow> exn + json" where
  "py_getitem (JDict kvs) k = (case map_of kvs k of None \<Rightarrow> Inl KeyError | Some v \<Rightarrow> Inr v)"
| "py_getitem j k = Inl TypeError"

text \<open>\<^verbatim>\<open>x.get(k, d)\<close>: only dictionaries have the method.\<close>

fun py_get :: "json \<Rightarrow> string \<Rightarrow> json \<Rightarrow> exn + json" where
  "py_get (JDict kvs) k d = Inr (case map_of kvs k of None \<Rightarrow> d | Some v \<Rightarrow> v)"
| "py_get j k d = Inl AttributeError"

text \<open>\<^verbatim>\<open>d[k] = v\<close> on a dictionary: an existing key keeps its place, a new one goes last.\<close>

fun dict_update :: "string \<Rightarrow> json \<Rightarrow> (string \<times> json) list \<Rightarrow> (string \<times> json) list" where
  "dict_update k v [] = [(k, v)]"
| "dict_update k v (p # ps) = (if fst p = k then (k, v) # ps else p # dict_update k v ps)"

fun py_setitem :: "json \<Rightarrow> string \<Rightarrow> json \<Rightarrow> exn + json" where
  "py_setitem (JDict kvs) k v = Inr (JDict (dict_update k v kvs))"
| "py_setitem j k v = Inl TypeError"

text \<open>\<^verbatim>\<open>del d[k]\<close>.\<close>

fun py_delitem :: "json \<Rightarrow> string \<Rightarrow> exn + json" where
  "py_delitem (JDict kvs) k =
     (if map_of kvs k = None then Inl KeyError else Inr (JDict (filter (\<lambda>p. fst p \<noteq> k) kvs)))"
| "py_delitem j k = Inl TypeError"

section \<open>Files\<close>

text \<open>
  The files of the program: the registry \<^verbatim>\<open>sequence.json\<close>, the two locations of the live
  configuration, and one backup per account in each of \<^verbatim>\<open>configs/\<close> and \<^verbatim>\<open>credentials/\<close>,
  named by the text that \<^verbatim>\<open>f"{account_number}"\<close> gives.
\<close>

datatype path =
    Sequence_file
  | Claude_config
  | Claude_alt_config
  | Config_backup string
  | Credentials_backup string

datatype encoding = UTF8 | UTF8_SIG | LATIN1 | CP1252

text \<open>
  What \<^verbatim>\<open>json.load\<close> does on a file opened under one encoding: the bytes do not decode
  (\<^verbatim>\<open>UnicodeDecodeError\<close>), they decode to text that is not JSON (\<^verbatim>\<open>JSONDecodeError\<close>), or a
  document comes back. The contents of a file are modelled by what each encoding makes of
  them, which is all that the program observes. No relation between the encodings is
  assumed (Latin-1, for one, decodes any bytes, so that the readers of this program never
  get past it on a real file).
\<close>

datatype attempt = Undecodable | Malformed | Parsed json

type_synonym content = "encoding \<Rightarrow> attempt"

type_synonym world = "path \<Rightarrow> content option"

text \<open>
  \<^verbatim>\<open>json.dump(data, f, indent=2)\<close> writes ASCII only (\<^verbatim>\<open>ensure_ascii\<close> is on by default),
  so each of the four encodings reads the document back.
\<close>

definition written :: "json \<Rightarrow> content" where
  "written data = (\<lambda>e. Parsed data)"

text \<open>
  What one invocation meets from outside: whether a write, rename or unlink at a path goes
  through, the values of \<^verbatim>\<open>datetime.now().isoformat()\<close> (at 0 for the constructor, at 1 and 2
  for the calls of the method), the answer of \<^verbatim>\<open>is_claude_running\<close>, and the lines the user
  types at the prompts (none left: \<^verbatim>\<open>EOFError\<close>).
\<close>

record env =
  io_ok :: "path \<Rightarrow> bool"
  now :: "nat \<Rightarrow> string"
  claude_running :: bool
  inputs :: "string list"

section \<open>Durable store\<close>

definition encodings_to_try :: "encoding list" where
  "encodings_to_try = [UTF8, UTF8_SIG, LATIN1, CP1252]"

definition required_fields :: "string list" where
  "required_fields = [''activeAccountNumber'', ''lastUpdated'', ''sequence'', ''accounts'']"

text \<open>The validation that \<^verbatim>\<open>load_sequence\<close> and \<^verbatim>\<open>save_sequence\<close> both apply to a registry document.\<close>

fun check_required_fields :: "string list \<Rightarrow> json \<Rightarrow> exn + unit" where
  "check_required_fields [] data = Inr ()"
| "check_required_fields (field # rest) data =
     (case py_in field data of
        Inl e \<Rightarrow> Inl e
      | Inr present \<Rightarrow> if \<not> present then Inl ValueError else check_required_fields rest data)"

definition check_data_types :: "json \<Rightarrow> exn + unit" where
  "check_data_types data =
     and_then (py_getitem data ''activeAccountNumber'') (\<lambda>a.
       if \<not> isinstance_int a then Inl ValueError
       else and_then (py_getitem data ''sequence'') (\<lambda>s.
         if \<not> isinstance_list s then Inl ValueError
         else and_then (py_getitem data ''accounts'') (\<lambda>acc.
           if \<not> isinstance_dict acc then Inl ValueError else Inr ())))"

definition validate_sequence_data :: "json \<Rightarrow> exn + unit" where
  "validate_sequence_data data =
     and_then (check_required_fields required_fields data) (\<lambda>_. check_data_types data)"

text \<open>
  \<^verbatim>\<open>load_sequence\<close>: the loop over the encodings. Only \<^verbatim>\<open>UnicodeDecodeError\<close> moves on to the
  next encoding; every other exception is raised again; after the last encoding a
  \<^verbatim>\<open>UnicodeDecodeError\<close> is raised.
\<close>

fun load_sequence_loop :: "content option \<Rightarrow> encoding list \<Rightarrow> exn + json" where
  "load_sequence_loop f [] = Inl UnicodeDecodeError"
| "load_sequence_loop f (encoding # rest) =
     (case f of
        None \<Rightarrow> Inl FileNotFoundError
      | Some c \<Rightarrow>
          (case c encoding of
             Undecodable \<Rightarrow> load_sequence_loop f rest
           | Malformed \<Rightarrow> Inl JSONDecodeError
           | Parsed data \<Rightarrow>
               (case validate_sequence_data data of Inl e \<Rightarrow> Inl e | Inr _ \<Rightarrow> Inr data)))"

definition load_sequence :: "world \<Rightarrow> exn + json" where
  "load_sequence w = load_sequence_loop (w Sequence_file) encodings_to_try"

text \<open>
  \<^verbatim>\<open>save_sequence\<close>: validation, then the document goes to a temporary sibling that replaces
  the file. A failed write leaves the file as it was and raises \<^verbatim>\<open>IOError\<close>; the temporary
  sibling is not part of the model.
\<close>

definition save_sequence :: "env \<Rightarrow> world \<Rightarrow> json \<Rightarrow> world \<times> (exn + unit)" where
  "save_sequence env w data =
     (case validate_sequence_data data of
        Inl e \<Rightarrow> (w, Inl e)
      | Inr _ \<Rightarrow>
          if io_ok env Sequence_file then (w(Sequence_file \<mapsto> written data), Inr ())
          else (w, Inl IOError))"

text \<open>\<^verbatim>\<open>validate_claude_config\<close> returns a flag and a message; the message is one per exit.\<close>

datatype config_message =
    Not_a_dictionary
  | No_oauthAccount
  | OauthAccount_not_a_dictionary
  | Missing_oauth_field string
  | Config_is_valid

definition required_oauth_fields :: "string list" where
  "required_oauth_fields = [''emailAddress'', ''accountUuid'']"

fun check_oauth_fields :: "string list \<Rightarrow> (string \<times> json) list \<Rightarrow> bool \<times> config_message" where
  "check_oauth_fields [] oauth_account = (True, Config_is_valid)"
| "check_oauth_fields (field # rest) oauth_account =
     (if map_of oauth_account field = None then (False, Missing_oauth_field field)
      else check_oauth_fields rest oauth_account)"

fun validate_claude_config :: "json \<Rightarrow> bool \<times> config_message" where
  "validate_claude_config (JDict config_data) =
     (case map_of config_data ''oauthAccount'' of
        None \<Rightarrow> (False, No_oauthAccount)
      | Some (JDict oauth_account) \<Rightarrow> check_oauth_fields required_oauth_fields oauth_account
      | Some other \<Rightarrow> (False, OauthAccount_not_a_dictionary))"
| "validate_claude_config config_data = (False, Not_a_dictionary)"

text \<open>
  \<^verbatim>\<open>load_config_file\<close> returns the document, or \<^verbatim>\<open>None\<close> after printing one of three
  diagnostics; the model returns the diagnostic in place of \<^verbatim>\<open>None\<close>.
\<close>

datatype load_diagnostic =
    Invalid_JSON
  | Config_file_not_found
  | Could_not_read_with_any_encoding

fun load_config_loop :: "content option \<Rightarrow> encoding list \<Rightarrow> load_diagnostic + json" where
  "load_config_loop f [] = Inl Could_not_read_with_any_encoding"
| "load_config_loop f (encoding # rest) =
     (case f of
        None \<Rightarrow> Inl Config_file_not_found
      | Some c \<Rightarrow>
          (case c encoding of
             Undecodable \<Rightarrow> load_config_loop f rest
           | Malformed \<Rightarrow> Inl Invalid_JSON
           | Parsed data \<Rightarrow> Inr data))"

definition load_config_file :: "world \<Rightarrow> path \<Rightarrow> load_diagnostic + json" where
  "load_config_file w file_path = load_config_loop (w file_path) encodings_to_try"

text \<open>\<^verbatim>\<open>x is None\<close> for what \<^verbatim>\<open>load_config_file\<close> returned: a file holding \<^verbatim>\<open>null\<close> loads as \<^verbatim>\<open>None\<close>.\<close>

fun is_None :: "load_diagnostic + json \<Rightarrow> bool" where
  "is_None (Inl d) = True"
| "is_None (Inr JNull) = True"
| "is_None (Inr j) = False"

text \<open>\<^verbatim>\<open>save_config_file\<close>: nothing is written unless the validation passes.\<close>

definition save_config_file :: "env \<Rightarrow> world \<Rightarrow> path \<Rightarrow> json \<Rightarrow> world \<times> bool" where
  "save_config_file env w file_path data =
     (if \<not> fst (validate_claude_config data) then (w, False)
      else if io_ok env file_path then (w(file_path \<mapsto> written data), True)
      else (w, False))"

section \<open>Strings and numbers\<close>

text \<open>\<^verbatim>\<open>str(n)\<close> for an integer: the decimal numeral.\<close>

definition digit_char :: "nat \<Rightarrow> char" where
  "digit_char d = char_of (48 + d)"

fun string_of_nat :: "nat \<Rightarrow> string" where
  "string_of_nat n =
     (if n < 10 then [digit_char n] else string_of_nat (n div 10) @ [digit_char (n mod 10)])"

declare string_of_nat.simps [simp del]

definition str_int :: "int \<Rightarrow> string" where
  "str_int n = (if n < 0 then CHR ''-'' # string_of_nat (nat (- n)) else string_of_nat (nat n))"

text \<open>\<^verbatim>\<open>str(x)\<close>; \<^verbatim>\<open>None\<close> here stands for the text of a list or dictionary, which is not rendered.\<close>

fun str_of :: "json \<Rightarrow> string option" where
  "str_of (JStr s) = Some s"
| "str_of (JInt n) = Some (str_int n)"
| "str_of (JBool b) = Some (if b then ''True'' else ''False'')"
| "str_of JNull = Some ''None''"
| "str_of j = None"

definition py_str :: "json \<Rightarrow> exn + string" where
  "py_str x = (case str_of x of None \<Rightarrow> Inl Unmodelled | Some s \<Rightarrow> Inr s)"

definition is_digit :: "char \<Rightarrow> bool" where
  "is_digit c = (48 \<le> (of_char c :: nat) \<and> (of_char c :: nat) \<le> 57)"

definition digit_value :: "char \<Rightarrow> nat" where
  "digit_value c = of_char c - 48"

text \<open>\<^verbatim>\<open>s.isdigit()\<close>: a non-empty string of digits.\<close>

definition isdigit :: "string \<Rightarrow> bool" where
  "isdigit s = (s \<noteq> [] \<and> list_all is_digit s)"

text \<open>\<^verbatim>\<open>s.lower()\<close>.\<close>

definition lower_char :: "char \<Rightarrow> char" where
  "lower_char c =
     (if 65 \<le> (of_char c :: nat) \<and> (of_char c :: nat) \<le> 90 then char_of ((of_char c :: nat) + 32)
      else c)"

definition lower :: "string \<Rightarrow> string" where
  "lower s = map lower_char s"

fun py_lower :: "json \<Rightarrow> exn + string" where
  "py_lower (JStr s) = Inr (lower s)"
| "py_lower j = Inl AttributeError"

text \<open>
  \<^verbatim>\<open>int(s)\<close> for a string: white space around the numeral is dropped, a sign may come first,
  and single underscores may stand between digits. The limit that Python puts on the
  number of digits is not modelled.
\<close>

definition is_space :: "char \<Rightarrow> bool" where
  "is_space c = ((of_char c :: nat) \<in> {9, 10, 11, 12, 13, 28, 29, 30, 31, 32})"

definition strip :: "string \<Rightarrow> string" where
  "strip s = rev (dropWhile is_space (rev (dropWhile is_space s)))"

fun digit_groups :: "string \<Rightarrow> bool" where
  "digit_groups [] = False"
| "digit_groups [c] = is_digit c"
| "digit_groups (c # d # s) =
     (is_digit c \<and> (if d = CHR ''_'' then digit_groups s else digit_groups (d # s)))"

definition nat_of_digits :: "string \<Rightarrow> nat" where
  "nat_of_digits s = foldl (\<lambda>acc c. acc * 10 + digit_value c) 0 s"

definition nat_of_string :: "string \<Rightarrow> nat option" where
  "nat_of_string s =
     (if digit_groups s then Some (nat_of_digits (filter (\<lambda>c. c \<noteq> CHR ''_'') s)) else None)"

definition int_of_string :: "string \<Rightarrow> int option" where
  "int_of_string s =
     (case strip s of
        [] \<Rightarrow> None
      | c # r \<Rightarrow>
          if c = CHR ''-'' then map_option (\<lambda>n. - int n) (nat_of_string r)
          else if c = CHR ''+'' then map_option int (nat_of_string r)
          else map_option int (nat_of_string (c # r)))"

text \<open>\<^verbatim>\<open>int(x)\<close>.\<close>

fun py_int :: "json \<Rightarrow> exn + int" where
  "py_int (JInt n) = Inr n"
| "py_int (JBool b) = Inr (if b then 1 else 0)"
| "py_int (JStr s) = (case int_of_string s of None \<Rightarrow> Inl ValueError | Some n \<Rightarrow> Inr n)"
| "py_int j = Inl TypeError"

text \<open>\<^verbatim>\<open>n in x\<close> for an integer \<^verbatim>\<open>n\<close>.\<close>

fun py_in_int :: "int \<Rightarrow> json \<Rightarrow> exn + bool" where
  "py_in_int n (JList xs) = Inr (list_ex (\<lambda>x. py_eq_int x n) xs)"
| "py_in_int n (JDict kvs) = Inr False"
| "py_in_int n j = Inl TypeError"

text \<open>\<^verbatim>\<open>max(x) + 1\<close>: defined on a non-empty list of \<^verbatim>\<open>int\<close> instances only.\<close>

fun int_values :: "json list \<Rightarrow> int list option" where
  "int_values [] = Some []"
| "int_values (x # xs) =
     (case int_value x of
        None \<Rightarrow> None
      | Some n \<Rightarrow> (case int_values xs of None \<Rightarrow> None | Some ns \<Rightarrow> Some (n # ns)))"

fun max_plus_one :: "json \<Rightarrow> exn + int" where
  "max_plus_one (JList []) = Inl ValueError"
| "max_plus_one (JList (x # xs)) =
     (case int_values (x # xs) of
        Some (n # ns) \<Rightarrow> Inr (fold max ns n + 1)
      | _ \<Rightarrow> Inl TypeError)"
| "max_plus_one j = Inl TypeError"

text \<open>\<^verbatim>\<open>data[key].append(v)\<close> and \<^verbatim>\<open>data[key][k] = v\<close>, the two in-place updates of a member.\<close>

fun py_append :: "json \<Rightarrow> json \<Rightarrow> exn + json" where
  "py_append (JList xs) v = Inr (JList (xs @ [v]))"
| "py_append j v = Inl AttributeError"

definition append_at :: "json \<Rightarrow> string \<Rightarrow> json \<Rightarrow> exn + json" where
  "append_at data key v =
     and_then (py_getitem data key) (\<lambda>member.
       and_then (py_append member v) (\<lambda>member'. py_setitem data key member'))"

definition setitem_at :: "json \<Rightarrow> string \<Rightarrow> string \<Rightarrow> json \<Rightarrow> exn + json" where
  "setitem_at data key k v =
     and_then (py_getitem data key) (\<lambda>member.
       and_then (py_setitem member k v) (\<lambda>member'. py_setitem data key member'))"

text \<open>\<^verbatim>\<open>xs.remove(n)\<close> drops the first element equal to \<^verbatim>\<open>n\<close>; \<^verbatim>\<open>xs.index(n)\<close> is its position.\<close>

fun remove_first :: "int \<Rightarrow> json list \<Rightarrow> json list" where
  "remove_first n [] = []"
| "remove_first n (x # xs) = (if py_eq_int x n then xs else x # remove_first n xs)"

fun index_of :: "int \<Rightarrow> json list \<Rightarrow> nat option" where
  "index_of n [] = None"
| "index_of n (x # xs) =
     (if py_eq_int x n then Some 0 else map_option Suc (index_of n xs))"

section \<open>Registry and backups\<close>

definition get_next_account_number :: "world \<Rightarrow> exn + int" where
  "get_next_account_number w =
     and_then (load_sequence w) (\<lambda>data.
       and_then (py_getitem data ''sequence'') (\<lambda>s.
         if \<not> truthy s then Inr 1 else max_plus_one s))"

text \<open>\<^verbatim>\<open>get_claude_config\<close>: the main file, then the alternative one, then \<^verbatim>\<open>{}\<close>.\<close>

definition get_claude_config :: "world \<Rightarrow> json" where
  "get_claude_config w =
     (if w Claude_config \<noteq> None \<and> \<not> is_None (load_config_file w Claude_config)
      then (case load_config_file w Claude_config of Inr data \<Rightarrow> data | Inl d \<Rightarrow> JDict [])
      else if w Claude_alt_config \<noteq> None \<and> \<not> is_None (load_config_file w Claude_alt_config)
      then (case load_config_file w Claude_alt_config of Inr data \<Rightarrow> data | Inl d \<Rightarrow> JDict [])
      else JDict [])"

definition save_claude_config :: "env \<Rightarrow> world \<Rightarrow> json \<Rightarrow> world \<times> bool" where
  "save_claude_config env w config_data = save_config_file env w Claude_config config_data"

text \<open>
  \<^verbatim>\<open>backup_account\<close>: the account number must be an \<^verbatim>\<open>int\<close> instance above 0; then the two
  copies are saved one after the other, whatever the first save returned.
\<close>

definition save_both :: "env \<Rightarrow> world \<Rightarrow> string \<Rightarrow> json \<Rightarrow> json \<Rightarrow> world \<times> bool" where
  "save_both env w name config_data credentials_data =
     (case save_config_file env w (Config_backup name) config_data of
        (w1, config_saved) \<Rightarrow>
          (case save_config_file env w1 (Credentials_backup name) credentials_data of
             (w2, cred_saved) \<Rightarrow> (w2, config_saved \<and> cred_saved)))"

fun backup_account :: "env \<Rightarrow> world \<Rightarrow> json \<Rightarrow> json \<Rightarrow> json \<Rightarrow> world \<times> bool" where
  "backup_account env w (JInt n) config_data credentials_data =
     (if n \<le> 0 then (w, False) else save_both env w (str_int n) config_data credentials_data)"
| "backup_account env w (JBool b) config_data credentials_data =
     (if \<not> b then (w, False) else save_both env w ''True'' config_data credentials_data)"
| "backup_account env w account_number config_data credentials_data = (w, False)"

section \<open>Switch engine\<close>

text \<open>
  A method returns \<^verbatim>\<open>True\<close> or \<^verbatim>\<open>False\<close>, having printed a message; the model returns the exit
  taken. An exception that leaves the method is the \<open>Inl\<close> of the result.
\<close>

datatype status =
    Added
  | Switched
  | Removed
  | No_configuration_found
  | Invalid_claude_config config_message
  | Failed_to_backup
  | Failed_to_add exn
  | Could_not_load_sequence
  | Account_not_found
  | Configuration_file_not_found
  | Switch_cancelled
  | Could_not_load_config
  | Invalid_account_config config_message
  | Failed_to_save_config
  | Could_not_update_sequence exn
  | No_accounts_registered
  | Removal_cancelled
  | Could_not_save_sequence exn

text \<open>The value returned: \<^verbatim>\<open>True\<close> at the three successful exits, \<^verbatim>\<open>False\<close> at the others.\<close>

fun returned :: "status \<Rightarrow> bool" where
  "returned Added = True"
| "returned Switched = True"
| "returned Removed = True"
| "returned s = False"

text \<open>
  \<^verbatim>\<open>add_account\<close>, from the account information to the registry document ready to be saved
  (all of it inside the \<^verbatim>\<open>try\<close>).
\<close>

definition new_registry_data :: "env \<Rightarrow> world \<Rightarrow> json \<Rightarrow> exn + (int \<times> json)" where
  "new_registry_data env w current_config =
     and_then (py_getitem current_config ''oauthAccount'') (\<lambda>oauth_account.
     and_then (py_get oauth_account ''emailAddress'' (JStr ''Unknown'')) (\<lambda>email.
     and_then (py_get oauth_account ''accountUuid'' (JStr ''Unknown'')) (\<lambda>uuid.
     and_then (py_get oauth_account ''displayName'' (JStr ''Unknown'')) (\<lambda>display_name.
     and_then (get_next_account_number w) (\<lambda>account_number.
     let account_info = JDict [(''email'', email), (''uuid'', uuid),
                               (''displayName'', display_name), (''added'', JStr (now env 1))] in
     and_then (load_sequence w) (\<lambda>data.
     and_then (append_at data ''sequence'' (JInt account_number)) (\<lambda>data.
     and_then (setitem_at data ''accounts'' (str_int account_number) account_info) (\<lambda>data.
     and_then (py_setitem data ''activeAccountNumber'' (JInt account_number)) (\<lambda>data.
     and_then (py_setitem data ''lastUpdated'' (JStr (now env 2))) (\<lambda>data.
     Inr (account_number, data)))))))))))"

definition add_account :: "env \<Rightarrow> world \<Rightarrow> world \<times> (exn + status)" where
  "add_account env w =
     (let current_config = get_claude_config w in
      if \<not> truthy current_config then (w, Inr No_configuration_found)
      else
        (case validate_claude_config current_config of
           (False, message) \<Rightarrow> (w, Inr (Invalid_claude_config message))
         | (True, message) \<Rightarrow>
             (case new_registry_data env w current_config of
                Inl e \<Rightarrow> (w, Inr (Failed_to_add e))
              | Inr (account_number, data) \<Rightarrow>
                  (case save_sequence env w data of
                     (w1, Inl e) \<Rightarrow> (w1, Inr (Failed_to_add e))
                   | (w1, Inr u) \<Rightarrow>
                       (case backup_account env w1 (JInt account_number)
                               current_config current_config of
                          (w2, success) \<Rightarrow>
                            (w2, Inr (if success then Added else Failed_to_backup)))))))"

text \<open>
  The target of \<^verbatim>\<open>switch_to_account\<close> and of \<^verbatim>\<open>remove_account\<close> (the two methods hold the same
  lines): a number is looked up in \<^verbatim>\<open>sequence\<close>, anything else is compared with the
  \<^verbatim>\<open>emailAddress\<close> of each entry of \<^verbatim>\<open>accounts\<close>, in order, up to case.
\<close>

fun find_by_email :: "(string \<times> json) list \<Rightarrow> string \<Rightarrow> exn + int option" where
  "find_by_email [] target = Inr None"
| "find_by_email ((acc_num, acc_info) # rest) target =
     (case and_then (py_get acc_info ''emailAddress'' (JStr [])) py_lower of
        Inl e \<Rightarrow> Inl e
      | Inr email \<Rightarrow>
          if email = lower target
          then (case int_of_string acc_num of None \<Rightarrow> Inl ValueError | Some n \<Rightarrow> Inr (Some n))
          else find_by_email rest target)"

fun py_items :: "json \<Rightarrow> exn + (string \<times> json) list" where
  "py_items (JDict kvs) = Inr kvs"
| "py_items j = Inl AttributeError"

definition find_account :: "json \<Rightarrow> json \<Rightarrow> exn + int option" where
  "find_account data target_account =
     and_then (py_str target_account) (\<lambda>target.
       if isdigit target
       then and_then (py_int target_account) (\<lambda>n.
              and_then (py_getitem data ''sequence'') (\<lambda>s.
                and_then (py_in_int n s) (\<lambda>found. Inr (if found then Some n else None))))
       else and_then (py_getitem data ''accounts'') (\<lambda>accounts.
              and_then (py_items accounts) (\<lambda>items. find_by_email items target)))"

text \<open>The exceptions that \<^verbatim>\<open>except (json.JSONDecodeError, ValueError, FileNotFoundError)\<close> catches.\<close>

definition load_error_caught :: "exn \<Rightarrow> bool" where
  "load_error_caught e =
     (is_subclass e JSONDecodeError \<or> is_subclass e ValueError \<or> is_subclass e FileNotFoundError)"

text \<open>
  The warning when Claude Code runs: \<open>Inr True\<close> to go on, \<open>Inr False\<close> when the user
  declines. With no input left, \<^verbatim>\<open>input\<close> raises in the \<^verbatim>\<open>try\<close>, the handler calls it again,
  and that second \<^verbatim>\<open>EOFError\<close> leaves the method.
\<close>

definition confirm_switch :: "env \<Rightarrow> exn + bool" where
  "confirm_switch env =
     (if claude_running env
      then (case inputs env of
              [] \<Rightarrow> Inl EOFError
            | response # rest \<Rightarrow> Inr (lower response = ''y''))
      else Inr True)"

text \<open>
  The backup of the outgoing configuration, best effort: its result is dropped, and the
  \<^verbatim>\<open>TypeError\<close> of \<^verbatim>\<open>current_account_num > 0\<close> on a value that is no number is swallowed.
\<close>

definition backup_current :: "env \<Rightarrow> world \<Rightarrow> json \<Rightarrow> world" where
  "backup_current env w data =
     (let current_config = get_claude_config w in
      if truthy current_config
      then (case py_get data ''activeAccountNumber'' (JInt 0) of
              Inl e \<Rightarrow> w
            | Inr current_account_num \<Rightarrow>
                (case int_value current_account_num of
                   None \<Rightarrow> w
                 | Some v \<Rightarrow>
                     if v > 0
                     then fst (backup_account env w current_account_num
                                 current_config current_config)
                     else w))
      else w)"

text \<open>The name in the closing message: \<^verbatim>\<open>data['accounts'].get(str(n), {}).get(key, 'Unknown')\<close>.\<close>

definition account_field :: "json \<Rightarrow> int \<Rightarrow> string \<Rightarrow> exn + json" where
  "account_field data account_number key =
     and_then (py_getitem data ''accounts'') (\<lambda>accounts.
       and_then (py_get accounts (str_int account_number) (JDict [])) (\<lambda>info.
         py_get info key (JStr ''Unknown'')))"

definition switch_to_account :: "env \<Rightarrow> world \<Rightarrow> json \<Rightarrow> world \<times> (exn + status)" where
  "switch_to_account env w target_account =
     (case load_sequence w of
        Inl e \<Rightarrow> if load_error_caught e then (w, Inr Could_not_load_sequence) else (w, Inl e)
      | Inr data \<Rightarrow>
     (case find_account data target_account of
        Inl e \<Rightarrow> (w, Inl e)
      | Inr None \<Rightarrow> (w, Inr Account_not_found)
      | Inr (Some account_number) \<Rightarrow>
     (let config_file = Config_backup (str_int account_number) in
      if w config_file = None then (w, Inr Configuration_file_not_found)
      else
     (case confirm_switch env of
        Inl e \<Rightarrow> (w, Inl e)
      | Inr False \<Rightarrow> (w, Inr Switch_cancelled)
      | Inr True \<Rightarrow>
     (let target_config = load_config_file w config_file in
      if is_None target_config then (w, Inr Could_not_load_config)
      else
     (case target_config of
        Inl d \<Rightarrow> (w, Inr Could_not_load_config)
      | Inr target_config \<Rightarrow>
     (case validate_claude_config target_config of
        (False, message) \<Rightarrow> (w, Inr (Invalid_account_config message))
      | (True, message) \<Rightarrow>
     (let w1 = backup_current env w data in
      (case save_claude_config env w1 target_config of
         (w2, False) \<Rightarrow> (w2, Inr Failed_to_save_config)
       | (w2, True) \<Rightarrow>
      (case and_then (py_setitem data ''activeAccountNumber'' (JInt account_number))
              (\<lambda>data. py_setitem data ''lastUpdated'' (JStr (now env 1))) of
         Inl e \<Rightarrow> (w2, Inl e)
       | Inr data \<Rightarrow>
      (case save_sequence env w2 data of
         (w3, Inl e) \<Rightarrow> (w3, Inr (Could_not_update_sequence e))
       | (w3, Inr u) \<Rightarrow>
      (case account_field data account_number ''email'' of
         Inl e \<Rightarrow> (w3, Inl e)
       | Inr target_email \<Rightarrow> (w3, Inr Switched)))))))))))))"

text \<open>
  \<^verbatim>\<open>switch_to_next_account\<close>: the element after the first one equal to the active number,
  cyclically, or the first element when \<^verbatim>\<open>index\<close> raises \<^verbatim>\<open>ValueError\<close>.
\<close>

definition next_account :: "json list \<Rightarrow> int \<Rightarrow> json" where
  "next_account xs current_active =
     (case index_of current_active xs of
        Some current_index \<Rightarrow> xs ! ((current_index + 1) mod length xs)
      | None \<Rightarrow> xs ! 0)"

definition switch_to_next_account :: "env \<Rightarrow> world \<Rightarrow> world \<times> (exn + status)" where
  "switch_to_next_account env w =
     (case load_sequence w of
        Inl e \<Rightarrow> (w, Inl e)
      | Inr data \<Rightarrow>
     (case py_get data ''activeAccountNumber'' (JInt 0) of
        Inl e \<Rightarrow> (w, Inl e)
      | Inr current_active \<Rightarrow>
     (case py_getitem data ''sequence'' of
        Inl e \<Rightarrow> (w, Inl e)
      | Inr s \<Rightarrow>
          if \<not> truthy s then (w, Inr No_accounts_registered)
          else
            (case (s, int_value current_active) of
               (JList xs, Some a) \<Rightarrow> switch_to_account env w (next_account xs a)
             | _ \<Rightarrow> (w, Inl Unmodelled)))))"

text \<open>
  \<^verbatim>\<open>remove_account\<close>. The files of the account are unlinked last, best effort: an unlink
  that raises ends the block with a warning.
\<close>

definition remove_from_registry :: "env \<Rightarrow> json \<Rightarrow> int \<Rightarrow> exn + json" where
  "remove_from_registry env data account_number =
     and_then (py_getitem data ''sequence'') (\<lambda>s.
     and_then (py_in_int account_number s) (\<lambda>listed.
     and_then (if listed
               then (case s of JList xs \<Rightarrow>
                       py_setitem data ''sequence'' (JList (remove_first account_number xs))
                     | _ \<Rightarrow> Inl AttributeError)
               else Inr data) (\<lambda>data.
     and_then (py_getitem data ''accounts'') (\<lambda>accounts.
     and_then (py_in (str_int account_number) accounts) (\<lambda>registered.
     and_then (if registered
               then and_then (py_delitem accounts (str_int account_number))
                      (\<lambda>accounts. py_setitem data ''accounts'' accounts)
               else Inr data) (\<lambda>data.
     and_then (py_get data ''activeAccountNumber'' JNull) (\<lambda>active.
     and_then (if py_eq_int active account_number
               then and_then (py_getitem data ''sequence'') (\<lambda>s.
                      if truthy s
                      then (case s of
                              JList (first # rest) \<Rightarrow>
                                py_setitem data ''activeAccountNumber'' first
                            | _ \<Rightarrow> Inl Unmodelled)
                      else py_setitem data ''activeAccountNumber'' (JInt 0))
               else Inr data) (\<lambda>data.
     py_setitem data ''lastUpdated'' (JStr (now env 1))))))))))"

definition unlink :: "env \<Rightarrow> world \<Rightarrow> path \<Rightarrow> world option" where
  "unlink env w file_path = (if io_ok env file_path then Some (w(file_path := None)) else None)"

definition remove_backup_files :: "env \<Rightarrow> world \<Rightarrow> int \<Rightarrow> world" where
  "remove_backup_files env w account_number =
     (let config_file = Config_backup (str_int account_number);
          cred_file = Credentials_backup (str_int account_number) in
      (case (if w config_file \<noteq> None then unlink env w config_file else Some w) of
         None \<Rightarrow> w
       | Some w1 \<Rightarrow>
           (case (if w1 cred_file \<noteq> None then unlink env w1 cred_file else Some w1) of
              None \<Rightarrow> w1
            | Some w2 \<Rightarrow> w2)))"

definition remove_account :: "env \<Rightarrow> world \<Rightarrow> json \<Rightarrow> world \<times> (exn + status)" where
  "remove_account env w target_account =
     (case load_sequence w of
        Inl e \<Rightarrow> if load_error_caught e then (w, Inr Could_not_load_sequence) else (w, Inl e)
      | Inr data \<Rightarrow>
     (case find_account data target_account of
        Inl e \<Rightarrow> (w, Inl e)
      | Inr None \<Rightarrow> (w, Inr Account_not_found)
      | Inr (Some account_number) \<Rightarrow>
     (case account_field data account_number ''emailAddress'' of
        Inl e \<Rightarrow> (w, Inl e)
      | Inr account_email \<Rightarrow>
     (case inputs env of
        [] \<Rightarrow> (w, Inl EOFError)
      | response # rest \<Rightarrow>
          if lower response \<noteq> ''y'' then (w, Inr Removal_cancelled)
          else
     (case remove_from_registry env data account_number of
        Inl e \<Rightarrow> (w, Inl e)
      | Inr data \<Rightarrow>
     (case save_sequence env w data of
        (w1, Inl e) \<Rightarrow> (w1, Inr (Could_not_save_sequence e))
      | (w1, Inr u) \<Rightarrow>
          (remove_backup_files env w1 account_number, Inr Removed)))))))"

section \<open>Invocations\<close>

text \<open>
  The constructor creates the registry when there is none. The directories it creates are
  not part of the model, and of a failed creation only the \<^verbatim>\<open>IOError\<close> is kept.
\<close>

definition initial_document :: "string \<Rightarrow> json" where
  "initial_document t =
     JDict [(''activeAccountNumber'', JInt 0), (''lastUpdated'', JStr t),
            (''sequence'', JList []), (''accounts'', JDict [])]"

definition init :: "env \<Rightarrow> world \<Rightarrow> exn + world" where
  "init env w =
     (if w Sequence_file = None
      then (if io_ok env Sequence_file
            then Inr (w(Sequence_file \<mapsto> written (initial_document (now env 0))))
            else Inl IOError)
      else Inr w)"

text \<open>
  The parsed command line. \<^verbatim>\<open>main\<close> builds the switcher, tests the options in a fixed
  order and drops what the method returns; \<^verbatim>\<open>--list\<close> and the help text only print. The
  model keeps the world that the invocation leaves behind: an exception that leaves the
  constructor or a method ends the process after the writes made so far.
\<close>

record arguments =
  opt_list :: bool
  opt_add_account :: bool
  opt_switch :: bool
  opt_switch_to :: "string option"
  opt_remove_account :: "string option"

fun given :: "string option \<Rightarrow> bool" where
  "given None = False"
| "given (Some s) = (s \<noteq> [])"

definition main :: "env \<Rightarrow> arguments \<Rightarrow> world \<Rightarrow> world" where
  "main env args w =
     (case init env w of
        Inl e \<Rightarrow> w
      | Inr switcher \<Rightarrow>
          if opt_list args then switcher
          else if opt_add_account args then fst (add_account env switcher)
          else if opt_switch args then fst (switch_to_next_account env switcher)
          else if given (opt_switch_to args)
          then fst (switch_to_account env switcher (JStr (the (opt_switch_to args))))
          else if given (opt_remove_account args)
          then fst (remove_account env switcher (JStr (the (opt_remove_account args))))
          else switcher)"

text \<open>
  A history is a list of events: invocations of the program, and the host application
  (or the user logging in) rewriting the two live configuration files between them.
\<close>

datatype event =
    Invocation env arguments
  | Host_writes "content option" "content option"

fun step :: "world \<Rightarrow> event \<Rightarrow> world" where
  "step w (Invocation env args) = main env args w"
| "step w (Host_writes main_file alt_file) =
     w(Claude_config := main_file, Claude_alt_config := alt_file)"

definition run :: "event list \<Rightarrow> world \<Rightarrow> world" where
  "run events w = foldl step w events"

text \<open>The initial registry, next to whatever live configuration there is.\<close>

definition initial_world :: "string \<Rightarrow> content option \<Rightarrow> content option \<Rightarrow> world" where
  "initial_world t main_file alt_file =
     (\<lambda>p. None)(Sequence_file \<mapsto> written (initial_document t),
                 Claude_config := main_file, Claude_alt_config := alt_file)"

section \<open>Notions of the specification\<close>

text \<open>
  The shape that the specification asks of a configuration payload: a dictionary with an
  \<^verbatim>\<open>oauthAccount\<close> dictionary that has the keys \<^verbatim>\<open>emailAddress\<close> and \<^verbatim>\<open>accountUuid\<close>.
\<close>

fun accepted_shape :: "json \<Rightarrow> bool" where
  "accepted_shape (JDict config_data) =
     (case map_of config_data ''oauthAccount'' of
        Some (JDict oauth_account) \<Rightarrow>
          ''emailAddress'' \<in> fst ` set oauth_account \<and> ''accountUuid'' \<in> fst ` set oauth_account
      | _ \<Rightarrow> False)"
| "accepted_shape j = False"

text \<open>
  The registry document of section 6 of the specification, with its four fields in the
  order in which the constructor writes them.
\<close>

definition registry_document :: "int \<Rightarrow> string \<Rightarrow> int list \<Rightarrow> (string \<times> json) list \<Rightarrow> json" where
  "registry_document active updated ids accounts =
     JDict [(''activeAccountNumber'', JInt active), (''lastUpdated'', JStr updated),
            (''sequence'', JList (map JInt ids)), (''accounts'', JDict accounts)]"

text \<open>The next identifier of section 4.2: 1 for an empty sequence, else the maximum plus 1.\<close>

definition next_id :: "int list \<Rightarrow> int" where
  "next_id ids = (if ids = [] then 1 else Max (set ids) + 1)"

text \<open>
  The invariant of section 3 on the fields of a registry document: the keys of \<^verbatim>\<open>accounts\<close>
  are the numerals of the identifiers in \<^verbatim>\<open>sequence\<close>, no identifier is listed twice, every
  identifier is at least 1, and the active number is 0 or listed.
\<close>

definition registry_ok :: "int \<Rightarrow> int list \<Rightarrow> (string \<times> json) list \<Rightarrow> bool" where
  "registry_ok active ids accounts =
     (fst ` set accounts = str_int ` set ids \<and> distinct ids \<and> (\<forall>n\<in>set ids. 1 \<le> n) \<and>
      (active = 0 \<or> active \<in> set ids))"

definition world_ok :: "world \<Rightarrow> bool" where
  "world_ok w =
     (\<exists>a t ids accs. w Sequence_file = Some (written (registry_document a t ids accs)) \<and>
        registry_ok a ids accs)"

text \<open>The backup files, as opposed to the registry and the live configuration.\<close>

definition backup_path :: "path \<Rightarrow> bool" where
  "backup_path q = (case q of Config_backup n \<Rightarrow> True | Credentials_backup n \<Rightarrow> True | _ \<Rightarrow> False)"

text \<open>What the validation of a registry document asks of its fields.\<close>

definition registry_fields :: "(string \<times> json) list \<Rightarrow> bool" where
  "registry_fields kvs =
     ((\<exists>a. map_of kvs ''activeAccountNumber'' = Some a \<and> isinstance_int a) \<and>
      map_of kvs ''lastUpdated'' \<noteq> None \<and>
      (\<exists>xs. map_of kvs ''sequence'' = Some (JList xs)) \<and>
      (\<exists>acc. map_of kvs ''accounts'' = Some (JDict acc)))"

section \<open>Examples\<close>

text \<open>An invocation where every write goes through and Claude Code is not running.\<close>

definition quiet_env :: "string \<Rightarrow> string list \<Rightarrow> env" where
  "quiet_env t typed =
     \<lparr>io_ok = (\<lambda>p. True), now = (\<lambda>k. t), claude_running = False, inputs = typed\<rparr>"

text \<open>The payload of the scenario in section 8 of the specification, with a token beside it.\<close>

definition example_config :: "string \<Rightarrow> json" where
  "example_config token =
     JDict [(''oauthAccount'',
             JDict [(''emailAddress'', JStr ''a@x.com''), (''accountUuid'', JStr ''u1'')]),
            (''token'', JStr token)]"

definition example_world :: world where
  "example_world = initial_world ''t0'' (Some (written (example_config ''k1''))) None"

text \<open>A file in a legacy encoding: not UTF-8, read as Latin-1.\<close>

definition latin1_file :: "attempt \<Rightarrow> content" where
  "latin1_file a = (\<lambda>e. if e = UTF8 \<or> e = UTF8_SIG then Undecodable else a)"


definition legacy_world :: world where
  "legacy_world =
     (\<lambda>p. None)(Claude_config \<mapsto> latin1_file (Parsed (example_config ''k1'')),
                 Sequence_file \<mapsto> latin1_file Malformed)"

definition unreadable_world :: world where
  "unreadable_world = (\<lambda>p. Some (\<lambda>e. Undecodable))"


text \<open>Command lines, and the metadata that \<^verbatim>\<open>add_account\<close> records for the example payload.\<close>

definition no_arguments :: arguments where
  "no_arguments = \<lparr>opt_list = False, opt_add_account = False, opt_switch = False,
                    opt_switch_to = None, opt_remove_account = None\<rparr>"

definition adding :: "string \<Rightarrow> event" where
  "adding t = Invocation (quiet_env t []) (no_arguments\<lparr>opt_add_account := True\<rparr>)"

definition removing :: "string \<Rightarrow> string \<Rightarrow> event" where
  "removing t target =
     Invocation (quiet_env t [''y'']) (no_arguments\<lparr>opt_remove_account := Some target\<rparr>)"

definition switching_to :: "string \<Rightarrow> string \<Rightarrow> event" where
  "switching_to t target =
     Invocation (quiet_env t []) (no_arguments\<lparr>opt_switch_to := Some target\<rparr>)"

definition example_info :: "string \<Rightarrow> json" where
  "example_info t = JDict [(''email'', JStr ''a@x.com''), (''uuid'', JStr ''u1''),
              (''displayName'', JStr ''Unknown''), (''added'', JStr t)]"

text \<open>Two accounts registered, the first one active.\<close>

definition two_accounts :: world where
  "two_accounts = run [adding ''t1'', adding ''t2'', switching_to ''t3'' ''1''] example_world"

text \<open>An invocation where the write of the live configuration fails.\<close>

definition live_write_fails :: "string \<Rightarrow> env" where
  "live_write_fails t =
     \<lparr>io_ok = (\<lambda>p. p \<noteq> Claude_config), now = (\<lambda>k. t), claude_running = False, inputs = []\<rparr>"

text \<open>An invocation where the write of the credentials copy of account 1 fails.\<close>

definition credentials_write_fails :: "string \<Rightarrow> env" where
  "credentials_write_fails t =
     \<lparr>io_ok = (\<lambda>p. p \<noteq> Credentials_backup ''1''), now = (\<lambda>k. t), claude_running = False,
      inputs = []\<rparr>"

text \<open>
  Account 1 registered and active, the host application having rewritten the live
  configuration since (a new token); and a registry whose active number is not listed.
\<close>

definition refreshed_world :: world where
  "refreshed_world =
     run [adding ''t1'', Host_writes (Some (written (example_config ''k2''))) None] example_world"

definition stale_world :: world where
  "stale_world =
     two_accounts(Sequence_file \<mapsto> written (registry_document 7 ''t3'' [1, 2]
        [(''1'', example_info ''t1''), (''2'', example_info ''t2'')]))"

section \<open>The durable store\<close>

lemma map_of_None_iff: "map_of kvs k = None \<longleftrightarrow> k \<notin> fst ` set kvs"
  by (simp add: map_of_eq_None_iff)

lemma check_oauth_fields_iff:
  "fst (check_oauth_fields required_oauth_fields oa) =
     (''emailAddress'' \<in> fst ` set oa \<and> ''accountUuid'' \<in> fst ` set oa)"
  by (simp add: required_oauth_fields_def map_of_None_iff)

lemma validate_iff_shape: "fst (validate_claude_config data) = accepted_shape data"
  by (cases data) (simp_all add: check_oauth_fields_iff split: option.splits json.splits)

lemma save_config_file_cases:
  "save_config_file env w p data =
     (if accepted_shape data \<and> io_ok env p then (w(p \<mapsto> written data), True) else (w, False))"
  by (simp add: save_config_file_def validate_iff_shape)

text \<open>
  Claim C10. Whatever \<^verbatim>\<open>save_config_file\<close> writes has the accepted shape: when it returns
  \<^verbatim>\<open>True\<close>, the payload is a dictionary with an \<^verbatim>\<open>oauthAccount\<close> dictionary holding
  \<^verbatim>\<open>emailAddress\<close> and \<^verbatim>\<open>accountUuid\<close>, and the file holds that payload; on any other
  payload it returns \<^verbatim>\<open>False\<close> and no file changes.
\<close>

theorem save_config_file_accepts_only_identified_payloads:
  "save_config_file env w p data = (w', ok) \<Longrightarrow>
     (ok \<longrightarrow> accepted_shape data \<and> w' = w(p \<mapsto> written data)) \<and>
     (\<not> accepted_shape data \<longrightarrow> \<not> ok \<and> w' = w)"
  by (auto simp: save_config_file_cases split: if_splits)

theorem save_config_file_accepts_only_identified_payloads_witness:
  "accepted_shape (example_config ''k1'') \<and>
   fst (save_config_file (quiet_env ''t1'' []) example_world (Config_backup ''1'')
          (example_config ''k1'')) (Config_backup ''1'') = Some (written (example_config ''k1'')) \<and>
   \<not> accepted_shape (JDict [(''oauthAccount'', JDict [(''emailAddress'', JStr ''a@x.com'')])]) \<and>
   save_config_file (quiet_env ''t1'' []) example_world (Config_backup ''1'')
     (JDict [(''oauthAccount'', JDict [(''emailAddress'', JStr ''a@x.com'')])])
     = (example_world, False)"
  using save_config_file_accepts_only_identified_payloads
          [of "quiet_env ''t1'' []" example_world "Config_backup ''1''" "example_config ''k1''"
              "example_world(Config_backup ''1'' \<mapsto> written (example_config ''k1''))" True]
        save_config_file_accepts_only_identified_payloads
          [of "quiet_env ''t1'' []" example_world "Config_backup ''1''"
              "JDict [(''oauthAccount'', JDict [(''emailAddress'', JStr ''a@x.com'')])]"
              "fst (save_config_file (quiet_env ''t1'' []) example_world (Config_backup ''1'')
                 (JDict [(''oauthAccount'', JDict [(''emailAddress'', JStr ''a@x.com'')])]))"
              "snd (save_config_file (quiet_env ''t1'' []) example_world (Config_backup ''1'')
                 (JDict [(''oauthAccount'', JDict [(''emailAddress'', JStr ''a@x.com'')])]))"]
  by (simp add: save_config_file_cases quiet_env_def example_config_def)

lemma load_config_loop_first:
  "\<forall>e'\<in>set tried. c e' = Undecodable \<Longrightarrow> c e \<noteq> Undecodable \<Longrightarrow>
   load_config_loop (Some c) (tried @ e # later) =
     (case c e of Parsed d \<Rightarrow> Inr d | _ \<Rightarrow> Inl Invalid_JSON)"
  by (induction tried) (auto split: attempt.splits)

lemma load_config_loop_exhausted:
  "\<forall>e'\<in>set es. c e' = Undecodable \<Longrightarrow>
   load_config_loop (Some c) es = Inl Could_not_read_with_any_encoding"
  by (induction es) auto

lemma load_sequence_loop_first:
  "\<forall>e'\<in>set tried. c e' = Undecodable \<Longrightarrow> c e \<noteq> Undecodable \<Longrightarrow>
   load_sequence_loop (Some c) (tried @ e # later) =
     (case c e of
        Parsed d \<Rightarrow> (case validate_sequence_data d of Inl x \<Rightarrow> Inl x | Inr u \<Rightarrow> Inr d)
      | _ \<Rightarrow> Inl JSONDecodeError)"
  by (induction tried) (auto split: attempt.splits)

lemma load_sequence_loop_exhausted:
  "\<forall>e'\<in>set es. c e' = Undecodable \<Longrightarrow> load_sequence_loop (Some c) es = Inl UnicodeDecodeError"
  by (induction es) auto

text \<open>
  Claim C9. Both readers go through utf-8, utf-8-sig, latin-1, cp1252 in this order. The
  first encoding under which the bytes decode settles the read, whatever the later ones
  would give: its document is accepted (by \<^verbatim>\<open>load_sequence\<close>, after the validation of the
  registry fields), and a JSON syntax error under it ends the read at once. When no
  encoding decodes, the read fails with the decoding error, which is not the failure of
  the JSON syntax error: \<^verbatim>\<open>UnicodeDecodeError\<close> against \<^verbatim>\<open>JSONDecodeError\<close> in
  \<^verbatim>\<open>load_sequence\<close>, and in \<^verbatim>\<open>load_config_file\<close>, which returns \<^verbatim>\<open>None\<close> in both cases, the
  diagnostic printed.
\<close>

theorem reads_try_encodings_in_order:
  assumes "w file_path = Some c" and "w Sequence_file = Some r"
  shows "encodings_to_try = [UTF8, UTF8_SIG, LATIN1, CP1252] \<and>
    (\<forall>tried e later.
        encodings_to_try = tried @ e # later \<and> (\<forall>e'\<in>set tried. c e' = Undecodable) \<and>
        c e \<noteq> Undecodable \<longrightarrow>
        load_config_file w file_path =
          (case c e of Parsed d \<Rightarrow> Inr d | _ \<Rightarrow> Inl Invalid_JSON)) \<and>
    (\<forall>tried e later.
        encodings_to_try = tried @ e # later \<and> (\<forall>e'\<in>set tried. r e' = Undecodable) \<and>
        r e \<noteq> Undecodable \<longrightarrow>
        load_sequence w =
          (case r e of
             Parsed d \<Rightarrow> (case validate_sequence_data d of Inl x \<Rightarrow> Inl x | Inr u \<Rightarrow> Inr d)
           | _ \<Rightarrow> Inl JSONDecodeError)) \<and>
    ((\<forall>e\<in>set encodings_to_try. c e = Undecodable) \<longrightarrow>
        load_config_file w file_path = Inl Could_not_read_with_any_encoding) \<and>
    ((\<forall>e\<in>set encodings_to_try. r e = Undecodable) \<longrightarrow>
        load_sequence w = Inl UnicodeDecodeError) \<and>
    Could_not_read_with_any_encoding \<noteq> Invalid_JSON \<and> UnicodeDecodeError \<noteq> JSONDecodeError"
proof -
  have order: "encodings_to_try = [UTF8, UTF8_SIG, LATIN1, CP1252]"
    by (simp add: encodings_to_try_def)
  have config: "load_config_file w file_path =
      (case c e of Parsed d \<Rightarrow> Inr d | _ \<Rightarrow> Inl Invalid_JSON)"
    if "encodings_to_try = tried @ e # later" "\<forall>e'\<in>set tried. c e' = Undecodable"
       "c e \<noteq> Undecodable" for tried e later
    using that assms(1) load_config_loop_first [of tried c e later]
    by (simp add: load_config_file_def)
  have registry: "load_sequence w =
      (case r e of
         Parsed d \<Rightarrow> (case validate_sequence_data d of Inl x \<Rightarrow> Inl x | Inr u \<Rightarrow> Inr d)
       | _ \<Rightarrow> Inl JSONDecodeError)"
    if "encodings_to_try = tried @ e # later" "\<forall>e'\<in>set tried. r e' = Undecodable"
       "r e \<noteq> Undecodable" for tried e later
    using that assms(2) load_sequence_loop_first [of tried r e later]
    by (simp add: load_sequence_def)
  have config_none: "load_config_file w file_path = Inl Could_not_read_with_any_encoding"
    if "\<forall>e\<in>set encodings_to_try. c e = Undecodable"
    using that assms(1) load_config_loop_exhausted [of encodings_to_try c]
    by (simp add: load_config_file_def)
  have registry_none: "load_sequence w = Inl UnicodeDecodeError"
    if "\<forall>e\<in>set encodings_to_try. r e = Undecodable"
    using that assms(2) load_sequence_loop_exhausted [of encodings_to_try r]
    by (simp add: load_sequence_def)
  from order config registry config_none registry_none show ?thesis
    by blast
qed

theorem reads_try_encodings_in_order_witness:
  "load_config_file legacy_world Claude_config = Inr (example_config ''k1'') \<and>
   load_sequence legacy_world = Inl JSONDecodeError \<and>
   load_config_file unreadable_world Claude_config = Inl Could_not_read_with_any_encoding \<and>
   load_sequence unreadable_world = Inl UnicodeDecodeError"
proof -
  have c: "legacy_world Claude_config = Some (latin1_file (Parsed (example_config ''k1'')))"
    and r: "legacy_world Sequence_file = Some (latin1_file Malformed)"
    by (simp_all add: legacy_world_def)
  have u: "unreadable_world Claude_config = Some (\<lambda>e. Undecodable)"
    and v: "unreadable_world Sequence_file = Some (\<lambda>e. Undecodable)"
    by (simp_all add: unreadable_world_def)
  note legacy = reads_try_encodings_in_order [OF c r]
  note unreadable = reads_try_encodings_in_order [OF u v]
  have "load_config_file legacy_world Claude_config = Inr (example_config ''k1'')"
    using legacy [THEN conjunct2, THEN conjunct1, rule_format,
                  of "[UTF8, UTF8_SIG]" LATIN1 "[CP1252]"]
    by (simp add: encodings_to_try_def latin1_file_def)
  moreover have "load_sequence legacy_world = Inl JSONDecodeError"
    using legacy [THEN conjunct2, THEN conjunct2, THEN conjunct1, rule_format,
                  of "[UTF8, UTF8_SIG]" LATIN1 "[CP1252]"]
    by (simp add: encodings_to_try_def latin1_file_def)
  moreover have "load_config_file unreadable_world Claude_config
                   = Inl Could_not_read_with_any_encoding"
    using unreadable by simp
  moreover have "load_sequence unreadable_world = Inl UnicodeDecodeError"
    using unreadable by simp
  ultimately show ?thesis by simp
qed

section \<open>Numerals\<close>

text \<open>\<^verbatim>\<open>int(str(n))\<close> is \<^verbatim>\<open>n\<close>: the keys of \<^verbatim>\<open>accounts\<close> read back as the numbers they were made from.\<close>

lemma is_digit_digit_char: "d < 10 \<Longrightarrow> is_digit (digit_char d)"
  by (simp add: is_digit_def digit_char_def)

lemma digit_value_digit_char: "d < 10 \<Longrightarrow> digit_value (digit_char d) = d"
  by (simp add: digit_value_def digit_char_def)

lemma string_of_nat_digits: "list_all is_digit (string_of_nat n) \<and> string_of_nat n \<noteq> []"
proof (induction n rule: string_of_nat.induct)
  case (1 n)
  show ?case
  proof (cases "n < 10")
    case True
    then show ?thesis by (simp add: string_of_nat.simps [of n] is_digit_digit_char)
  next
    case False
    with 1 show ?thesis by (simp add: string_of_nat.simps [of n] is_digit_digit_char)
  qed
qed

lemma nat_of_digits_snoc: "nat_of_digits (s @ [c]) = nat_of_digits s * 10 + digit_value c"
  by (simp add: nat_of_digits_def)

lemma nat_of_digits_string_of_nat: "nat_of_digits (string_of_nat n) = n"
proof (induction n rule: string_of_nat.induct)
  case (1 n)
  show ?case
  proof (cases "n < 10")
    case True
    then show ?thesis
      by (simp add: string_of_nat.simps [of n] nat_of_digits_def digit_value_digit_char)
  next
    case False
    with 1 show ?thesis
      by (simp add: string_of_nat.simps [of n] nat_of_digits_snoc digit_value_digit_char)
  qed
qed

lemma not_digit_underscore: "is_digit c \<Longrightarrow> c \<noteq> CHR ''_''"
  by (auto simp: is_digit_def)

lemma digit_groups_digits: "s \<noteq> [] \<Longrightarrow> list_all is_digit s \<Longrightarrow> digit_groups s"
  by (induction s rule: digit_groups.induct) (auto dest: not_digit_underscore)

lemma filter_digits: "list_all is_digit s \<Longrightarrow> filter (\<lambda>c. c \<noteq> CHR ''_'') s = s"
  by (induction s) (auto dest: not_digit_underscore)

lemma nat_of_string_string_of_nat: "nat_of_string (string_of_nat n) = Some n"
  using string_of_nat_digits [of n]
  by (simp add: nat_of_string_def digit_groups_digits filter_digits nat_of_digits_string_of_nat)

lemma not_space_digit: "is_digit c \<Longrightarrow> \<not> is_space c"
  by (auto simp: is_digit_def is_space_def)

lemma strip_keeps:
  assumes "s \<noteq> []" "\<not> is_space (hd s)" "\<not> is_space (last s)"
  shows "strip s = s"
proof -
  from assms have "dropWhile is_space s = s" by (cases s) auto
  moreover from assms have "dropWhile is_space (rev s) = rev s"
    by (cases "rev s") (auto simp: last_rev [symmetric] simp del: last_rev)
  ultimately show ?thesis by (simp add: strip_def)
qed

lemma digits_hd_last:
  "s \<noteq> [] \<Longrightarrow> list_all is_digit s \<Longrightarrow> is_digit (hd s) \<and> is_digit (last s)"
  by (cases s) (auto simp: list_all_iff)

lemma int_of_string_str_int: "int_of_string (str_int n) = Some n"
proof (cases "n < 0")
  case True
  let ?d = "string_of_nat (nat (- n))"
  have d: "?d \<noteq> []" "list_all is_digit ?d" using string_of_nat_digits by auto
  then have "\<not> is_space (last (CHR ''-'' # ?d))"
    using digits_hd_last [of ?d] not_space_digit by auto
  moreover have "\<not> is_space (CHR ''-'')" by (simp add: is_space_def)
  ultimately have "strip (CHR ''-'' # ?d) = CHR ''-'' # ?d"
    by (intro strip_keeps) auto
  with True show ?thesis
    by (simp add: int_of_string_def str_int_def nat_of_string_string_of_nat)
next
  case False
  let ?d = "string_of_nat (nat n)"
  have d: "?d \<noteq> []" "list_all is_digit ?d" using string_of_nat_digits by auto
  then have hl: "is_digit (hd ?d)" "is_digit (last ?d)" using digits_hd_last by auto
  then have s: "strip ?d = ?d" using d not_space_digit by (intro strip_keeps) auto
  obtain c r where cr: "?d = c # r" using d by (cases ?d) auto
  with hl have "c \<noteq> CHR ''-''" "c \<noteq> CHR ''+''" by (auto simp: is_digit_def)
  with False s cr nat_of_string_string_of_nat [of "nat n"] show ?thesis
    by (simp add: int_of_string_def str_int_def)
qed

lemma str_int_inj: "str_int m = str_int n \<longleftrightarrow> m = n"
  by (metis int_of_string_str_int option.inject)

section \<open>Registry documents\<close>

lemma getitem_registry:
  "py_getitem (registry_document a t ids accs) ''activeAccountNumber'' = Inr (JInt a)"
  "py_getitem (registry_document a t ids accs) ''lastUpdated'' = Inr (JStr t)"
  "py_getitem (registry_document a t ids accs) ''sequence'' = Inr (JList (map JInt ids))"
  "py_getitem (registry_document a t ids accs) ''accounts'' = Inr (JDict accs)"
  by (simp_all add: registry_document_def)

lemma get_registry_active:
  "py_get (registry_document a t ids accs) ''activeAccountNumber'' d = Inr (JInt a)"
  by (simp add: registry_document_def)

lemma setitem_registry:
  "py_setitem (registry_document a t ids accs) ''activeAccountNumber'' (JInt b)
     = Inr (registry_document b t ids accs)"
  "py_setitem (registry_document a t ids accs) ''lastUpdated'' (JStr u)
     = Inr (registry_document a u ids accs)"
  "py_setitem (registry_document a t ids accs) ''sequence'' (JList (map JInt ids'))
     = Inr (registry_document a t ids' accs)"
  "py_setitem (registry_document a t ids accs) ''accounts'' (JDict accs')
     = Inr (registry_document a t ids accs')"
  by (simp_all add: registry_document_def)

lemma validate_registry: "validate_sequence_data (registry_document a t ids accs) = Inr ()"
  by (simp add: validate_sequence_data_def required_fields_def check_data_types_def
        and_then_def registry_document_def)

lemma load_sequence_written:
  "w Sequence_file = Some (written d) \<Longrightarrow>
   load_sequence w = (case validate_sequence_data d of Inl e \<Rightarrow> Inl e | Inr u \<Rightarrow> Inr d)"
  by (simp add: load_sequence_def encodings_to_try_def written_def)

lemma load_registry:
  "w Sequence_file = Some (written (registry_document a t ids accs)) \<Longrightarrow>
   load_sequence w = Inr (registry_document a t ids accs)"
  by (simp add: load_sequence_written validate_registry)

lemma int_values_ids: "int_values (map JInt ids) = Some ids"
  by (induction ids) auto

lemma fold_max_Max: "fold max ns (n :: int) = Max (set (n # ns))"
  using Max.set_eq_fold [of n ns] by simp

lemma max_plus_one_ids:
  "ids \<noteq> [] \<Longrightarrow> max_plus_one (JList (map JInt ids)) = Inr (Max (set ids) + 1)"
  using int_values_ids [of ids] fold_max_Max [of "tl ids" "hd ids"]
  by (cases ids) (simp_all del: int_values.simps)

lemma py_in_int_ids: "py_in_int n (JList (map JInt ids)) = Inr (n \<in> set ids)"
  by (auto simp: list_ex_iff py_eq_int_def)

lemma remove_first_ids: "remove_first n (map JInt ids) = map JInt (remove1 n ids)"
  by (induction ids) (auto simp: py_eq_int_def)

lemma get_next_account_number_registry:
  "w Sequence_file = Some (written (registry_document a t ids accs)) \<Longrightarrow>
   get_next_account_number w = Inr (next_id ids)"
  by (simp add: get_next_account_number_def load_registry and_then_def getitem_registry
        max_plus_one_ids next_id_def)

lemma next_id_greater: "i \<in> set ids \<Longrightarrow> i < next_id ids"
proof -
  assume i: "i \<in> set ids"
  then have "i \<le> Max (set ids)" by simp
  with i show ?thesis by (auto simp: next_id_def)
qed

lemma save_both_frame:
  "\<not> backup_path q \<Longrightarrow> fst (save_both env w name c d) q = w q"
  by (auto simp: save_both_def save_config_file_cases backup_path_def split: prod.splits)

lemma save_both_frameD:
  "save_both env w name c d = (w', b) \<Longrightarrow> \<not> backup_path q \<Longrightarrow> w' q = w q"
  using save_both_frame [of q env w name c d] by simp

lemma backup_account_frame:
  "\<not> backup_path q \<Longrightarrow> fst (backup_account env w n c d) q = w q"
  by (cases n) (simp_all add: save_both_frame)

lemma backup_current_frame:
  "\<not> backup_path q \<Longrightarrow> backup_current env w data q = w q"
  by (simp add: backup_current_def Let_def backup_account_frame split: sum.splits option.splits)

lemma not_backup_path [simp]:
  "\<not> backup_path Sequence_file" "\<not> backup_path Claude_config" "\<not> backup_path Claude_alt_config"
  by (simp_all add: backup_path_def)

lemma append_at_registry:
  "append_at (registry_document a t ids accs) ''sequence'' (JInt n)
     = Inr (registry_document a t (ids @ [n]) accs)"
  using setitem_registry(3) [of a t ids accs "ids @ [n]"]
  by (simp add: append_at_def and_then_def getitem_registry)

lemma setitem_at_registry:
  "setitem_at (registry_document a t ids accs) ''accounts'' k v
     = Inr (registry_document a t ids (dict_update k v accs))"
  by (simp add: setitem_at_def and_then_def getitem_registry setitem_registry)

lemma new_registry_data_registry:
  assumes "w Sequence_file = Some (written (registry_document a t ids accs))"
    and "new_registry_data env w cfg = Inr (n, data)"
  shows "n = next_id ids \<and>
         (\<exists>info. data = registry_document n (now env 2) (ids @ [n])
                          (dict_update (str_int n) info accs))"
  using assms(2)
  by (auto simp: new_registry_data_def and_then_def Let_def load_registry [of w a t ids accs, OF assms(1)]
        get_next_account_number_registry [of w a t ids accs, OF assms(1)] append_at_registry setitem_at_registry
        setitem_registry split: sum.splits)

lemma save_sequence_registry:
  "save_sequence env w (registry_document a t ids accs) =
     (if io_ok env Sequence_file
      then (w(Sequence_file \<mapsto> written (registry_document a t ids accs)), Inr ())
      else (w, Inl IOError))"
  by (simp add: save_sequence_def validate_registry)

lemma add_account_registry:
  assumes "w Sequence_file = Some (written (registry_document a t ids accs))"
    and "add_account env w = (w', r)"
  shows "w' Sequence_file = w Sequence_file \<or>
         (\<exists>info. w' Sequence_file =
            Some (written (registry_document (next_id ids) (now env 2) (ids @ [next_id ids])
                    (dict_update (str_int (next_id ids)) info accs))))"
proof (cases "new_registry_data env w (get_claude_config w)")
  case (Inl e)
  with assms(2) show ?thesis
    by (auto simp: add_account_def Let_def split: if_splits prod.splits bool.splits)
next
  case (Inr nd)
  obtain n data where nd: "nd = (n, data)" by (cases nd)
  from new_registry_data_registry [of w a t ids accs env _ n data, OF assms(1) Inr [unfolded nd]]
  obtain info where n: "n = next_id ids"
    and data: "data = registry_document n (now env 2) (ids @ [n]) (dict_update (str_int n) info accs)"
    by blast
  from assms(2) Inr nd show ?thesis
    unfolding n [symmetric]
    by (auto simp: add_account_def Let_def data save_sequence_registry
          dest!: save_both_frameD [where q = Sequence_file]
          split: if_splits prod.splits bool.splits)
qed

lemma find_by_email_key:
  "find_by_email accs s = Inr (Some n) \<Longrightarrow> \<exists>k\<in>fst ` set accs. int_of_string k = Some n"
  by (induction accs s rule: find_by_email.induct)
     (auto split: sum.splits if_splits option.splits)

lemma find_account_registry:
  assumes "find_account (registry_document a t ids accs) target = Inr (Some n)"
  shows "n \<in> set ids \<or> (\<exists>k\<in>fst ` set accs. int_of_string k = Some n)"
  using assms
  by (auto simp: find_account_def and_then_def getitem_registry py_in_int_ids
        simp del: py_in_int.simps dest: find_by_email_key split: sum.splits if_splits)

lemma save_claude_config_cases:
  "save_claude_config env w d =
     (if accepted_shape d \<and> io_ok env Claude_config then (w(Claude_config \<mapsto> written d), True)
      else (w, False))"
  by (simp add: save_claude_config_def save_config_file_cases)

lemma switch_to_account_registry:
  assumes "w Sequence_file = Some (written (registry_document a t ids accs))"
    and "switch_to_account env w target = (w', r)"
  shows "w' Sequence_file = w Sequence_file \<or>
         (\<exists>n. find_account (registry_document a t ids accs) target = Inr (Some n) \<and>
              w' Sequence_file = Some (written (registry_document n (now env 1) ids accs)))"
  using assms(2)
  by (auto simp: switch_to_account_def Let_def load_registry [of w a t ids accs, OF assms(1)]
        save_claude_config_cases backup_current_frame and_then_def setitem_registry
        save_sequence_registry
        split: sum.splits option.splits if_splits bool.splits prod.splits)

lemma filter_absent: "map_of accs k = None \<Longrightarrow> filter (\<lambda>p. fst p \<noteq> k) accs = accs"
  by (induction accs) (auto split: if_splits)

lemma set_first_active:
  "(if truthy (JList (map JInt ids))
    then (case JList (map JInt ids) of
            JList (first # rest) \<Rightarrow> py_setitem d ''activeAccountNumber'' first
          | _ \<Rightarrow> Inl Unmodelled)
    else py_setitem d ''activeAccountNumber'' (JInt 0))
   = py_setitem d ''activeAccountNumber'' (JInt (case ids of [] \<Rightarrow> 0 | x # xs \<Rightarrow> x))"
  by (cases ids) simp_all

lemma remove_from_registry_registry:
  "remove_from_registry env (registry_document a t ids accs) n =
     Inr (registry_document
            (if a = n then (case remove1 n ids of [] \<Rightarrow> 0 | x # xs \<Rightarrow> x) else a)
            (now env 1) (remove1 n ids) (filter (\<lambda>p. fst p \<noteq> str_int n) accs))"
proof -
  have ids: "n \<notin> set ids \<Longrightarrow> remove1 n ids = ids" by (simp add: remove1_idem)
  have s: "py_setitem (registry_document a t ids accs) ''sequence''
             (JList (remove_first n (map JInt ids))) = Inr (registry_document a t (remove1 n ids) accs)"
    by (simp add: remove_first_ids setitem_registry)
  show ?thesis
    unfolding remove_from_registry_def
    by (simp add: and_then_def getitem_registry py_in_int_ids s
          setitem_registry get_registry_active py_eq_int_def filter_absent ids set_first_active
          del: py_in_int.simps truthy.simps)
qed

lemma remove_backup_files_frame:
  "\<not> backup_path q \<Longrightarrow> remove_backup_files env w n q = w q"
  by (auto simp: remove_backup_files_def Let_def unlink_def backup_path_def
        split: option.splits if_splits)

lemma remove_account_registry:
  assumes "w Sequence_file = Some (written (registry_document a t ids accs))"
    and "remove_account env w target = (w', r)"
  shows "(r \<noteq> Inr Removed \<and> w' = w) \<or>
         (\<exists>n. r = Inr Removed \<and>
              find_account (registry_document a t ids accs) target = Inr (Some n) \<and>
              w' Sequence_file = Some (written (registry_document
                (if a = n then (case remove1 n ids of [] \<Rightarrow> 0 | x # xs \<Rightarrow> x) else a)
                (now env 1) (remove1 n ids) (filter (\<lambda>p. fst p \<noteq> str_int n) accs))))"
proof -
  let ?d = "registry_document a t ids accs"
  note load = load_registry [of w a t ids accs, OF assms(1)]
  show ?thesis
  proof (cases "find_account ?d target")
    case (Inl e)
    with assms(2) load show ?thesis by (auto simp: remove_account_def)
  next
    case (Inr found)
    show ?thesis
    proof (cases found)
      case None
      with assms(2) load Inr show ?thesis by (auto simp: remove_account_def)
    next
      case (Some n)
      show ?thesis
      proof (cases "account_field ?d n ''emailAddress''")
        case (Inl e)
        with assms(2) load Inr Some show ?thesis by (auto simp: remove_account_def)
      next
        case email: (Inr account_email)
        show ?thesis
        proof (cases "inputs env")
          case Nil
          with assms(2) load Inr Some email show ?thesis by (auto simp: remove_account_def)
        next
          case (Cons response rest)
          with assms(2) load Inr Some email show ?thesis
            by (auto simp: remove_account_def remove_from_registry_registry
                  save_sequence_registry remove_backup_files_frame split: if_splits)
        qed
      qed
    qed
  qed
qed

lemma keys_dict_update: "fst ` set (dict_update k v kvs) = insert k (fst ` set kvs)"
  by (induction kvs) auto

lemma next_id_fresh: "next_id ids \<notin> set ids"
  using next_id_greater [of "next_id ids" ids] by auto

lemma next_id_positive: "\<forall>n\<in>set ids. 1 \<le> n \<Longrightarrow> 1 \<le> next_id ids"
proof (cases ids)
  case Nil
  then show ?thesis by (simp add: next_id_def)
next
  case (Cons x xs)
  assume "\<forall>n\<in>set ids. 1 \<le> n"
  with Cons have "1 \<le> x" by simp
  with next_id_greater [of x ids] Cons show ?thesis by simp
qed

lemma registry_ok_add:
  assumes "registry_ok a ids accs"
  shows "registry_ok (next_id ids) (ids @ [next_id ids])
           (dict_update (str_int (next_id ids)) info accs)"
  using assms next_id_fresh [of ids] next_id_positive [of ids]
  by (auto simp: registry_ok_def keys_dict_update)

lemma found_is_listed:
  assumes "registry_ok a ids accs"
    and "find_account (registry_document a t ids accs) target = Inr (Some n)"
  shows "n \<in> set ids"
proof -
  from find_account_registry [OF assms(2)] show ?thesis
  proof
    assume "n \<in> set ids" then show ?thesis .
  next
    assume "\<exists>k\<in>fst ` set accs. int_of_string k = Some n"
    then obtain k where "k \<in> fst ` set accs" "int_of_string k = Some n" by blast
    moreover from assms(1) have "fst ` set accs = str_int ` set ids"
      by (simp add: registry_ok_def)
    ultimately obtain m where "m \<in> set ids" "int_of_string (str_int m) = Some n" by auto
    then show ?thesis by (simp add: int_of_string_str_int)
  qed
qed

lemma registry_ok_switch:
  "registry_ok a ids accs \<Longrightarrow> n \<in> set ids \<Longrightarrow> registry_ok n ids accs"
  by (simp add: registry_ok_def)

lemma registry_ok_remove:
  assumes "registry_ok a ids accs"
  shows "registry_ok (if a = n then (case remove1 n ids of [] \<Rightarrow> 0 | x # xs \<Rightarrow> x) else a)
           (remove1 n ids) (filter (\<lambda>p. fst p \<noteq> str_int n) accs)"
proof -
  from assms have d: "distinct ids" and k: "fst ` set accs = str_int ` set ids"
    and p: "\<forall>n\<in>set ids. 1 \<le> n" and a: "a = 0 \<or> a \<in> set ids"
    by (simp_all add: registry_ok_def)
  have "fst ` set (filter (\<lambda>p. fst p \<noteq> str_int n) accs) = fst ` set accs - {str_int n}"
    by auto
  also have "\<dots> = str_int ` (set ids - {n})"
    using k by (auto simp: str_int_inj)
  finally have keys: "fst ` set (filter (\<lambda>p. fst p \<noteq> str_int n) accs)
                        = str_int ` set (remove1 n ids)"
    using d by simp
  have first: "(case remove1 n ids of [] \<Rightarrow> 0 | x # xs \<Rightarrow> x) = 0 \<or>
               (case remove1 n ids of [] \<Rightarrow> 0 | x # xs \<Rightarrow> x) \<in> set (remove1 n ids)"
    by (cases "remove1 n ids") simp_all
  from keys d p a first show ?thesis
    by (auto simp: registry_ok_def)
qed

lemma world_ok_add: "world_ok w \<Longrightarrow> world_ok (fst (add_account env w))"
proof -
  assume "world_ok w"
  then obtain a t ids accs where w: "w Sequence_file = Some (written (registry_document a t ids accs))"
    and ok: "registry_ok a ids accs" by (auto simp: world_ok_def)
  from add_account_registry [of w a t ids accs env "fst (add_account env w)" "snd (add_account env w)", OF w]
  show ?thesis using w ok registry_ok_add [OF ok]
    unfolding world_ok_def by (metis prod.collapse)
qed

lemma world_ok_switch: "world_ok w \<Longrightarrow> world_ok (fst (switch_to_account env w target))"
proof -
  assume "world_ok w"
  then obtain a t ids accs where w: "w Sequence_file = Some (written (registry_document a t ids accs))"
    and ok: "registry_ok a ids accs" by (auto simp: world_ok_def)
  from switch_to_account_registry [of w a t ids accs env target
        "fst (switch_to_account env w target)" "snd (switch_to_account env w target)", OF w]
  show ?thesis using w ok registry_ok_switch [OF ok found_is_listed [OF ok]]
    unfolding world_ok_def by (metis prod.collapse)
qed

lemma world_ok_remove: "world_ok w \<Longrightarrow> world_ok (fst (remove_account env w target))"
proof -
  assume "world_ok w"
  then obtain a t ids accs where w: "w Sequence_file = Some (written (registry_document a t ids accs))"
    and ok: "registry_ok a ids accs" by (auto simp: world_ok_def)
  from remove_account_registry [of w a t ids accs env target
        "fst (remove_account env w target)" "snd (remove_account env w target)", OF w]
  show ?thesis using w ok registry_ok_remove [OF ok]
    unfolding world_ok_def by (metis prod.collapse)
qed

lemma world_ok_switch_next: "world_ok w \<Longrightarrow> world_ok (fst (switch_to_next_account env w))"
  by (auto simp: switch_to_next_account_def world_ok_switch
        split: sum.splits json.splits option.splits)

lemma world_ok_main: "world_ok w \<Longrightarrow> world_ok (main env args w)"
proof -
  assume ok: "world_ok w"
  then have "init env w = Inr w" by (auto simp: init_def world_ok_def)
  with ok show ?thesis
    by (simp add: main_def world_ok_add world_ok_switch world_ok_remove
          world_ok_switch_next)
qed

lemma world_ok_step: "world_ok w \<Longrightarrow> world_ok (step w ev)"
proof (cases ev)
  case (Invocation env args)
  assume "world_ok w"
  with Invocation show ?thesis by (simp add: world_ok_main)
next
  case (Host_writes m alt)
  assume "world_ok w"
  with Host_writes show ?thesis by (simp add: world_ok_def)
qed

lemma world_ok_run: "world_ok w \<Longrightarrow> world_ok (run events w)"
  unfolding run_def by (induction events arbitrary: w) (simp_all add: world_ok_step)

lemma world_ok_initial: "world_ok (initial_world t m alt)"
  unfolding world_ok_def initial_world_def
  by (rule exI [of _ 0], rule exI [of _ t], rule exI [of _ "[]"], rule exI [of _ "[]"])
     (simp add: registry_document_def initial_document_def registry_ok_def)

lemma reachable_registry:
  obtains a t ids accs where
    "(run events (initial_world t0 m alt)) Sequence_file
       = Some (written (registry_document a t ids accs))"
    "registry_ok a ids accs"
  using world_ok_run [OF world_ok_initial, of events t0 m alt] unfolding world_ok_def by blast

section \<open>Invariants of the registry\<close>

text \<open>
  Claim C3. After every history of invocations (and of rewrites of the live configuration
  by the host application) from the initial registry, the registry loads as a document
  whose \<^verbatim>\<open>sequence\<close> is a list of integers \<open>ids\<close> and whose \<^verbatim>\<open>accounts\<close> has keys that all
  parse as integers, the parsed keys being exactly the integers of \<^verbatim>\<open>sequence\<close>; no
  identifier occurs twice and each is at least 1.
\<close>

theorem registry_sequence_matches_accounts:
  "\<exists>a t ids accs.
     load_sequence (run events (initial_world t0 main_file alt_file))
       = Inr (registry_document a t ids accs) \<and>
     int_of_string ` fst ` set accs = Some ` set ids \<and> distinct ids \<and> (\<forall>n\<in>set ids. 1 \<le> n)"
proof -
  obtain a t ids accs where
    w: "(run events (initial_world t0 main_file alt_file)) Sequence_file
          = Some (written (registry_document a t ids accs))"
    and ok: "registry_ok a ids accs"
    by (rule reachable_registry)
  from ok have "int_of_string ` fst ` set accs = Some ` set ids"
    by (simp add: registry_ok_def image_image int_of_string_str_int)
  with ok load_registry [of "run events (initial_world t0 main_file alt_file)" a t ids accs, OF w]
  show ?thesis
    unfolding registry_ok_def by blast
qed

theorem registry_sequence_matches_accounts_witness:
  "(\<exists>a t ids accs.
     load_sequence (run [adding ''t1'', adding ''t2'', removing ''t3'' ''1''] example_world)
       = Inr (registry_document a t ids accs) \<and>
     int_of_string ` fst ` set accs = Some ` set ids \<and> distinct ids \<and> (\<forall>n\<in>set ids. 1 \<le> n)) \<and>
   load_sequence (run [adding ''t1'', adding ''t2'', removing ''t3'' ''1''] example_world)
     = Inr (registry_document 2 ''t3'' [2] [(''2'', example_info ''t2'')])"
proof -
  have "load_sequence (run [adding ''t1'', adding ''t2'', removing ''t3'' ''1''] example_world)
     = Inr (registry_document 2 ''t3'' [2] [(''2'', example_info ''t2'')])"
    by code_simp
  with registry_sequence_matches_accounts
         [of "[adding ''t1'', adding ''t2'', removing ''t3'' ''1'']" "''t0''"
             "Some (written (example_config ''k1''))" None]
  show ?thesis unfolding example_world_def by simp
qed

text \<open>
  Claim C4. After every history from the initial registry, \<^verbatim>\<open>activeAccountNumber\<close> is 0 or
  a member of \<^verbatim>\<open>sequence\<close>; and a \<^verbatim>\<open>remove_account\<close> that succeeds there leaves the
  registry with the identifier removed from \<^verbatim>\<open>sequence\<close> and, when it was the active one,
  with the first remaining identifier as the active number, or 0 when none remains.
\<close>

theorem active_account_is_listed:
  assumes "w = run events (initial_world t0 main_file alt_file)"
  shows "\<exists>a t ids accs.
     load_sequence w = Inr (registry_document a t ids accs) \<and> (a = 0 \<or> a \<in> set ids) \<and>
     (\<forall>env target w'. remove_account env w target = (w', Inr Removed) \<longrightarrow>
        (\<exists>n t' accs'. find_account (registry_document a t ids accs) target = Inr (Some n) \<and>
           load_sequence w' =
             Inr (registry_document
                    (if a = n then (case remove1 n ids of [] \<Rightarrow> 0 | x # xs \<Rightarrow> x) else a)
                    t' (remove1 n ids) accs')))"
proof -
  obtain a t ids accs where
    w: "w Sequence_file = Some (written (registry_document a t ids accs))"
    and ok: "registry_ok a ids accs"
    unfolding assms by (rule reachable_registry)
  have "\<exists>n t' accs'. find_account (registry_document a t ids accs) target = Inr (Some n) \<and>
           load_sequence w' =
             Inr (registry_document
                    (if a = n then (case remove1 n ids of [] \<Rightarrow> 0 | x # xs \<Rightarrow> x) else a)
                    t' (remove1 n ids) accs')"
    if "remove_account env w target = (w', Inr Removed)" for env target w'
  proof -
    from remove_account_registry [of w a t ids accs env target w' "Inr Removed", OF w that]
    obtain n where n: "find_account (registry_document a t ids accs) target = Inr (Some n)"
      and w': "w' Sequence_file = Some (written (registry_document
                (if a = n then (case remove1 n ids of [] \<Rightarrow> 0 | x # xs \<Rightarrow> x) else a)
                (now env 1) (remove1 n ids) (filter (\<lambda>p. fst p \<noteq> str_int n) accs)))"
      by blast
    from n load_registry [of w' _ _ _ _, OF w'] show ?thesis by blast
  qed
  with ok load_registry [of w a t ids accs, OF w] show ?thesis
    unfolding registry_ok_def by blast
qed

theorem active_account_is_listed_witness:
  "(\<exists>a t ids accs.
     load_sequence two_accounts = Inr (registry_document a t ids accs) \<and>
     (a = 0 \<or> a \<in> set ids) \<and>
     (\<forall>env target w'. remove_account env two_accounts target = (w', Inr Removed) \<longrightarrow>
        (\<exists>n t' accs'. find_account (registry_document a t ids accs) target = Inr (Some n) \<and>
           load_sequence w' =
             Inr (registry_document
                    (if a = n then (case remove1 n ids of [] \<Rightarrow> 0 | x # xs \<Rightarrow> x) else a)
                    t' (remove1 n ids) accs')))) \<and>
   load_sequence two_accounts
     = Inr (registry_document 1 ''t3'' [1, 2]
              [(''1'', example_info ''t1''), (''2'', example_info ''t2'')]) \<and>
   snd (remove_account (quiet_env ''t4'' [''y'']) two_accounts (JStr ''1'')) = Inr Removed \<and>
   load_sequence (fst (remove_account (quiet_env ''t4'' [''y'']) two_accounts (JStr ''1'')))
     = Inr (registry_document 2 ''t4'' [2] [(''2'', example_info ''t2'')])"
proof -
  have "load_sequence two_accounts
     = Inr (registry_document 1 ''t3'' [1, 2]
              [(''1'', example_info ''t1''), (''2'', example_info ''t2'')]) \<and>
   snd (remove_account (quiet_env ''t4'' [''y'']) two_accounts (JStr ''1'')) = Inr Removed \<and>
   load_sequence (fst (remove_account (quiet_env ''t4'' [''y'']) two_accounts (JStr ''1'')))
     = Inr (registry_document 2 ''t4'' [2] [(''2'', example_info ''t2'')])"
    by code_simp
  with active_account_is_listed
         [of two_accounts "[adding ''t1'', adding ''t2'', switching_to ''t3'' ''1'']" "''t0''"
             "Some (written (example_config ''k1''))" None]
  show ?thesis unfolding two_accounts_def example_world_def by simp
qed

section \<open>Allocation of account numbers\<close>

text \<open>
  Claim C1, as amended. After every history from the initial registry,
  \<^verbatim>\<open>get_next_account_number\<close> returns 1 when \<^verbatim>\<open>sequence\<close> is empty and its maximum plus 1
  otherwise: a number above every identifier that the sequence holds at that moment. (An
  identifier that was removed is not in the sequence any more; see the counterexample.)
\<close>

theorem next_account_number_exceeds_listed_ids:
  "\<exists>a t ids accs n.
     load_sequence (run events (initial_world t0 main_file alt_file))
       = Inr (registry_document a t ids accs) \<and>
     get_next_account_number (run events (initial_world t0 main_file alt_file)) = Inr n \<and>
     n = (if ids = [] then 1 else Max (set ids) + 1) \<and> (\<forall>i\<in>set ids. i < n)"
proof -
  obtain a t ids accs where
    w: "(run events (initial_world t0 main_file alt_file)) Sequence_file
          = Some (written (registry_document a t ids accs))"
    and ok: "registry_ok a ids accs"
    by (rule reachable_registry)
  from load_registry [of "run events (initial_world t0 main_file alt_file)" a t ids accs, OF w]
    get_next_account_number_registry
      [of "run events (initial_world t0 main_file alt_file)" a t ids accs, OF w]
    next_id_greater [of _ ids]
  show ?thesis unfolding next_id_def by blast
qed

theorem next_account_number_exceeds_listed_ids_witness:
  "(\<exists>a t ids accs n.
     load_sequence two_accounts = Inr (registry_document a t ids accs) \<and>
     get_next_account_number two_accounts = Inr n \<and>
     n = (if ids = [] then 1 else Max (set ids) + 1) \<and> (\<forall>i\<in>set ids. i < n)) \<and>
   get_next_account_number two_accounts = Inr 3"
proof -
  have "get_next_account_number two_accounts = Inr 3"
    by code_simp
  with next_account_number_exceeds_listed_ids
         [of "[adding ''t1'', adding ''t2'', switching_to ''t3'' ''1'']" "''t0''"
             "Some (written (example_config ''k1''))" None]
  show ?thesis unfolding two_accounts_def example_world_def by simp
qed

text \<open>
  Claim C1 as stated fails: with the accounts 1, 2 and 3 registered, removing account 3
  leaves the sequence 1, 2, and the next account number is 3 again, not 4.
\<close>

theorem removed_highest_id_is_allocated_again:
  "load_sequence (run [adding ''t1'', adding ''t2'', adding ''t3''] example_world)
     = Inr (registry_document 3 ''t3'' [1, 2, 3]
             [(''1'', example_info ''t1''), (''2'', example_info ''t2''),
              (''3'', example_info ''t3'')]) \<and>
   load_sequence
     (run [adding ''t1'', adding ''t2'', adding ''t3'', removing ''t4'' ''3''] example_world)
     = Inr (registry_document 1 ''t4'' [1, 2]
             [(''1'', example_info ''t1''), (''2'', example_info ''t2'')]) \<and>
   get_next_account_number
     (run [adding ''t1'', adding ''t2'', adding ''t3'', removing ''t4'' ''3''] example_world)
     = Inr 3"
  by code_simp

section \<open>Looking an account up by its email address\<close>

text \<open>
  Claim C2 holds of the intention and fails on the code. \<^verbatim>\<open>add_account\<close> takes the
  \<^verbatim>\<open>emailAddress\<close> of the live configuration and records it under the key \<^verbatim>\<open>email\<close>; the
  lookup of \<^verbatim>\<open>switch_to_account\<close> and \<^verbatim>\<open>remove_account\<close> reads the key \<^verbatim>\<open>emailAddress\<close> of the
  record, which is never there. With the live configuration of \<open>a@x.com\<close> registered as
  account 1, the targets \<open>a@x.com\<close> and \<open>A@X.COM\<close> are not found, while the target \<open>1\<close>
  is.
\<close>
theorem email_lookup_misses_registered_account:
  "get_claude_config example_world = example_config ''k1'' \<and>
   py_getitem (example_config ''k1'') ''oauthAccount''
     = Inr (JDict [(''emailAddress'', JStr ''a@x.com''), (''accountUuid'', JStr ''u1'')]) \<and>
   snd (add_account (quiet_env ''t1'' []) example_world) = Inr Added \<and>
   load_sequence (fst (add_account (quiet_env ''t1'' []) example_world))
     = Inr (registry_document 1 ''t1'' [1] [(''1'', example_info ''t1'')]) \<and>
   snd (switch_to_account (quiet_env ''t2'' [])
          (fst (add_account (quiet_env ''t1'' []) example_world)) (JStr ''a@x.com''))
     = Inr Account_not_found \<and>
   snd (switch_to_account (quiet_env ''t2'' [])
          (fst (add_account (quiet_env ''t1'' []) example_world)) (JStr ''A@X.COM''))
     = Inr Account_not_found \<and>
   snd (remove_account (quiet_env ''t2'' [''y''])
          (fst (add_account (quiet_env ''t1'' []) example_world)) (JStr ''a@x.com''))
     = Inr Account_not_found \<and>
   snd (switch_to_account (quiet_env ''t2'' [])
          (fst (add_account (quiet_env ''t1'' []) example_world)) (JStr ''1''))
     = Inr Switched"
  by code_simp

section \<open>Switching\<close>

lemma switch_to_account_Switched:
  assumes "switch_to_account env w target = (w', Inr Switched)"
  shows "\<exists>data n payload data'.
     load_sequence w = Inr data \<and> find_account data target = Inr (Some n) \<and>
     load_config_file w (Config_backup (str_int n)) = Inr payload \<and> accepted_shape payload \<and>
     io_ok env Claude_config \<and> io_ok env Sequence_file \<and>
     and_then (py_setitem data ''activeAccountNumber'' (JInt n))
       (\<lambda>d. py_setitem d ''lastUpdated'' (JStr (now env 1))) = Inr data' \<and>
     w' = (backup_current env w data)(Claude_config \<mapsto> written payload,
                                      Sequence_file \<mapsto> written data')"
  using assms
  by (auto simp: switch_to_account_def Let_def save_claude_config_cases save_sequence_def
        validate_iff_shape [symmetric]
        split: sum.splits option.splits if_splits bool.splits prod.splits)

lemma switch_to_account_attempted_write:
  assumes "switch_to_account env w target = (w', r)"
    and "load_sequence w = Inr data" and "find_account data target = Inr (Some n)"
    and "w (Config_backup (str_int n)) \<noteq> None" and "confirm_switch env = Inr True"
    and "load_config_file w (Config_backup (str_int n)) = Inr payload"
    and "accepted_shape payload"
    and "\<not> snd (save_claude_config env (backup_current env w data) payload)"
  shows "r = Inr Failed_to_save_config \<and> w' Sequence_file = w Sequence_file"
proof -
  from assms(7) have "payload \<noteq> JNull" by auto
  then have "\<not> is_None (Inr payload)" by (cases payload) simp_all
  with assms show ?thesis
    by (auto simp: switch_to_account_def Let_def save_claude_config_cases backup_current_frame
          validate_iff_shape [symmetric] split: prod.splits bool.splits if_splits)
qed

text \<open>
  Claim C5. In \<^verbatim>\<open>switch_to_account\<close> the registry file changes (and the method
  succeeds) only when the write of the target payload to the live configuration went
  through, the live configuration then holding that payload. When that write cannot go
  through, the registry file is as before and the method does not return \<^verbatim>\<open>True\<close>; and
  when the write is reached and \<^verbatim>\<open>save_claude_config\<close> returns \<^verbatim>\<open>False\<close>, the method
  returns \<^verbatim>\<open>False\<close> at that point, the registry file untouched.
\<close>

theorem registry_commit_follows_live_write:
  assumes "switch_to_account env w target = (w', r)"
  shows "(w' Sequence_file \<noteq> w Sequence_file \<or> r = Inr Switched \<longrightarrow>
            io_ok env Claude_config \<and>
            (\<exists>data n payload.
               load_sequence w = Inr data \<and> find_account data target = Inr (Some n) \<and>
               load_config_file w (Config_backup (str_int n)) = Inr payload \<and>
               snd (save_claude_config env (backup_current env w data) payload) \<and>
               w' Claude_config = Some (written payload))) \<and>
         (\<not> io_ok env Claude_config \<longrightarrow>
            w' Sequence_file = w Sequence_file \<and> (\<forall>s. r = Inr s \<longrightarrow> \<not> returned s)) \<and>
         (\<forall>data n payload.
            load_sequence w = Inr data \<and> find_account data target = Inr (Some n) \<and>
            w (Config_backup (str_int n)) \<noteq> None \<and> confirm_switch env = Inr True \<and>
            load_config_file w (Config_backup (str_int n)) = Inr payload \<and>
            accepted_shape payload \<and>
            \<not> snd (save_claude_config env (backup_current env w data) payload) \<longrightarrow>
            r = Inr Failed_to_save_config \<and> \<not> returned Failed_to_save_config \<and>
            w' Sequence_file = w Sequence_file)"
proof -
  have changed: "w' Sequence_file \<noteq> w Sequence_file \<or> r = Inr Switched \<longrightarrow>
            io_ok env Claude_config \<and>
            (\<exists>data n payload.
               load_sequence w = Inr data \<and> find_account data target = Inr (Some n) \<and>
               load_config_file w (Config_backup (str_int n)) = Inr payload \<and>
               snd (save_claude_config env (backup_current env w data) payload) \<and>
               w' Claude_config = Some (written payload))"
    using assms
    by (auto simp: switch_to_account_def Let_def save_claude_config_cases save_sequence_def
          backup_current_frame validate_iff_shape [symmetric]
          split: sum.splits option.splits if_splits bool.splits prod.splits)
  have failing: "\<not> io_ok env Claude_config \<longrightarrow>
            w' Sequence_file = w Sequence_file \<and> (\<forall>s. r = Inr s \<longrightarrow> \<not> returned s)"
    using assms
    by (auto simp: switch_to_account_def Let_def save_claude_config_cases save_sequence_def
          backup_current_frame
          split: sum.splits option.splits if_splits bool.splits prod.splits)
  have attempted: "\<forall>data n payload.
            load_sequence w = Inr data \<and> find_account data target = Inr (Some n) \<and>
            w (Config_backup (str_int n)) \<noteq> None \<and> confirm_switch env = Inr True \<and>
            load_config_file w (Config_backup (str_int n)) = Inr payload \<and>
            accepted_shape payload \<and>
            \<not> snd (save_claude_config env (backup_current env w data) payload) \<longrightarrow>
            r = Inr Failed_to_save_config \<and> \<not> returned Failed_to_save_config \<and>
            w' Sequence_file = w Sequence_file"
    using switch_to_account_attempted_write [OF assms] by simp
  show ?thesis
    by (rule conjI [OF changed conjI [OF failing attempted]])
qed

theorem registry_commit_follows_live_write_witness:
  "snd (switch_to_account (live_write_fails ''t4'') two_accounts (JStr ''2''))
     = Inr Failed_to_save_config \<and>
   fst (switch_to_account (live_write_fails ''t4'') two_accounts (JStr ''2'')) Sequence_file
     = two_accounts Sequence_file \<and>
   load_sequence (fst (switch_to_account (live_write_fails ''t4'') two_accounts (JStr ''2'')))
     = Inr (registry_document 1 ''t3'' [1, 2]
              [(''1'', example_info ''t1''), (''2'', example_info ''t2'')]) \<and>
   snd (switch_to_account (quiet_env ''t4'' []) two_accounts (JStr ''2'')) = Inr Switched \<and>
   load_sequence (fst (switch_to_account (quiet_env ''t4'' []) two_accounts (JStr ''2'')))
     = Inr (registry_document 2 ''t4'' [1, 2]
              [(''1'', example_info ''t1''), (''2'', example_info ''t2'')]) \<and>
   io_ok (quiet_env ''t4'' []) Claude_config \<and>
   (\<exists>data n payload.
      load_sequence two_accounts = Inr data \<and> find_account data (JStr ''2'') = Inr (Some n) \<and>
      load_config_file two_accounts (Config_backup (str_int n)) = Inr payload \<and>
      snd (save_claude_config (quiet_env ''t4'' [])
             (backup_current (quiet_env ''t4'' []) two_accounts data) payload) \<and>
      fst (switch_to_account (quiet_env ''t4'' []) two_accounts (JStr ''2'')) Claude_config
        = Some (written payload))"
proof -
  have e: "snd (switch_to_account (live_write_fails ''t4'') two_accounts (JStr ''2''))
     = Inr Failed_to_save_config \<and>
   load_sequence (fst (switch_to_account (live_write_fails ''t4'') two_accounts (JStr ''2'')))
     = Inr (registry_document 1 ''t3'' [1, 2]
              [(''1'', example_info ''t1''), (''2'', example_info ''t2'')]) \<and>
   snd (switch_to_account (quiet_env ''t4'' []) two_accounts (JStr ''2'')) = Inr Switched \<and>
   load_sequence (fst (switch_to_account (quiet_env ''t4'' []) two_accounts (JStr ''2'')))
     = Inr (registry_document 2 ''t4'' [1, 2]
              [(''1'', example_info ''t1''), (''2'', example_info ''t2'')]) \<and>
   \<not> io_ok (live_write_fails ''t4'') Claude_config"
    by code_simp
  note failed = registry_commit_follows_live_write
    [of "live_write_fails ''t4''" two_accounts "JStr ''2''"
        "fst (switch_to_account (live_write_fails ''t4'') two_accounts (JStr ''2''))"
        "snd (switch_to_account (live_write_fails ''t4'') two_accounts (JStr ''2''))",
     OF surjective_pairing]
  note passed = registry_commit_follows_live_write
    [of "quiet_env ''t4'' []" two_accounts "JStr ''2''"
        "fst (switch_to_account (quiet_env ''t4'' []) two_accounts (JStr ''2''))"
        "snd (switch_to_account (quiet_env ''t4'' []) two_accounts (JStr ''2''))",
     OF surjective_pairing]
  from e have "\<not> io_ok (live_write_fails ''t4'') Claude_config" by (rule conjunct2 [THEN conjunct2, THEN conjunct2, THEN conjunct2])
  with failed [THEN conjunct2, THEN conjunct1]
  have f: "fst (switch_to_account (live_write_fails ''t4'') two_accounts (JStr ''2'')) Sequence_file
     = two_accounts Sequence_file" by (rule mp [THEN conjunct1])
  from e have "snd (switch_to_account (quiet_env ''t4'' []) two_accounts (JStr ''2'')) = Inr Switched"
    by (rule conjunct2 [THEN conjunct2, THEN conjunct1])
  then have "fst (switch_to_account (quiet_env ''t4'' []) two_accounts (JStr ''2'')) Sequence_file
               \<noteq> two_accounts Sequence_file \<or>
             snd (switch_to_account (quiet_env ''t4'' []) two_accounts (JStr ''2'')) = Inr Switched"
    by (rule disjI2)
  with passed [THEN conjunct1] have p: "io_ok (quiet_env ''t4'' []) Claude_config \<and>
   (\<exists>data n payload.
      load_sequence two_accounts = Inr data \<and> find_account data (JStr ''2'') = Inr (Some n) \<and>
      load_config_file two_accounts (Config_backup (str_int n)) = Inr payload \<and>
      snd (save_claude_config (quiet_env ''t4'' [])
             (backup_current (quiet_env ''t4'' []) two_accounts data) payload) \<and>
      fst (switch_to_account (quiet_env ''t4'' []) two_accounts (JStr ''2'')) Claude_config
        = Some (written payload))" by (rule mp)
  from e f p show ?thesis by blast
qed

section \<open>Switching to the next account\<close>

lemma index_of_Some:
  "index_of a xs = Some i \<longleftrightarrow>
     i < length xs \<and> py_eq_int (xs ! i) a \<and> (\<forall>j<i. \<not> py_eq_int (xs ! j) a)"
proof (induction xs arbitrary: i)
  case Nil
  then show ?case by simp
next
  case (Cons x xs)
  show ?case
  proof (cases "py_eq_int x a")
    case True
    then show ?thesis by (cases i) auto
  next
    case False
    show ?thesis
    proof (cases i)
      case 0
      with False show ?thesis by simp
    next
      case (Suc k)
      with False Cons [of k] show ?thesis
        by (auto simp: less_Suc_eq_0_disj)
    qed
  qed
qed

lemma index_of_None: "index_of a xs = None \<longleftrightarrow> (\<forall>x\<in>set xs. \<not> py_eq_int x a)"
  by (induction xs) auto

lemma py_get_of_getitem: "py_getitem d k = Inr v \<Longrightarrow> py_get d k dflt = Inr v"
  by (cases d) (auto split: option.splits)

text \<open>
  Claim C7. With an empty \<^verbatim>\<open>sequence\<close>, \<^verbatim>\<open>switch_to_next_account\<close> returns \<^verbatim>\<open>False\<close> and nothing
  changes. Otherwise, when \<open>i\<close> is the first position of \<^verbatim>\<open>sequence\<close> that holds the active
  number, it does what \<^verbatim>\<open>switch_to_account\<close> does on the element at position
  \<open>(i + 1) mod length\<close>; and when no position holds it, on the first element.
\<close>

theorem switch_to_next_account_follows_sequence:
  assumes "load_sequence w = Inr data"
    and "py_getitem data ''sequence'' = Inr (JList xs)"
    and "py_getitem data ''activeAccountNumber'' = Inr active"
    and "int_value active = Some a"
  shows "(xs = [] \<longrightarrow> switch_to_next_account env w = (w, Inr No_accounts_registered)) \<and>
         (\<forall>i. i < length xs \<and> py_eq_int (xs ! i) a \<and> (\<forall>j<i. \<not> py_eq_int (xs ! j) a) \<longrightarrow>
              switch_to_next_account env w
                = switch_to_account env w (xs ! ((i + 1) mod length xs))) \<and>
         (xs \<noteq> [] \<and> (\<forall>x\<in>set xs. \<not> py_eq_int x a) \<longrightarrow>
              switch_to_next_account env w = switch_to_account env w (xs ! 0))"
proof -
  note start = assms(1) assms(2) py_get_of_getitem [OF assms(3)] assms(4)
  have empty: "xs = [] \<longrightarrow> switch_to_next_account env w = (w, Inr No_accounts_registered)"
    using start by (simp add: switch_to_next_account_def)
  have listed: "\<forall>i. i < length xs \<and> py_eq_int (xs ! i) a \<and> (\<forall>j<i. \<not> py_eq_int (xs ! j) a) \<longrightarrow>
              switch_to_next_account env w
                = switch_to_account env w (xs ! ((i + 1) mod length xs))"
  proof (intro allI impI)
    fix i
    assume i: "i < length xs \<and> py_eq_int (xs ! i) a \<and> (\<forall>j<i. \<not> py_eq_int (xs ! j) a)"
    then have "index_of a xs = Some i" by (simp add: index_of_Some)
    moreover from i have "xs \<noteq> []" by auto
    ultimately show "switch_to_next_account env w
                = switch_to_account env w (xs ! ((i + 1) mod length xs))"
      using start by (simp add: switch_to_next_account_def next_account_def)
  qed
  have stale: "xs \<noteq> [] \<and> (\<forall>x\<in>set xs. \<not> py_eq_int x a) \<longrightarrow>
              switch_to_next_account env w = switch_to_account env w (xs ! 0)"
  proof
    assume s: "xs \<noteq> [] \<and> (\<forall>x\<in>set xs. \<not> py_eq_int x a)"
    then have "index_of a xs = None" by (simp add: index_of_None)
    with s start show "switch_to_next_account env w = switch_to_account env w (xs ! 0)"
      by (simp add: switch_to_next_account_def next_account_def)
  qed
  show ?thesis by (rule conjI [OF empty conjI [OF listed stale]])
qed

theorem switch_to_next_account_follows_sequence_witness:
  "switch_to_next_account (quiet_env ''t4'' []) example_world
     = (example_world, Inr No_accounts_registered) \<and>
   switch_to_next_account (quiet_env ''t4'' []) two_accounts
     = switch_to_account (quiet_env ''t4'' []) two_accounts (JInt 2) \<and>
   switch_to_next_account (quiet_env ''t5'' [])
       (fst (switch_to_account (quiet_env ''t4'' []) two_accounts (JInt 2)))
     = switch_to_account (quiet_env ''t5'' [])
         (fst (switch_to_account (quiet_env ''t4'' []) two_accounts (JInt 2))) (JInt 1) \<and>
   switch_to_next_account (quiet_env ''t4'' []) stale_world
     = switch_to_account (quiet_env ''t4'' []) stale_world (JInt 1)"
proof -
  have l0: "load_sequence example_world = Inr (registry_document 0 ''t0'' [] [])"
    by code_simp
  have s0: "py_getitem (registry_document 0 ''t0'' [] []) ''sequence'' = Inr (JList [])"
    and a0: "py_getitem (registry_document 0 ''t0'' [] []) ''activeAccountNumber'' = Inr (JInt 0)"
    by (simp_all add: getitem_registry)
  have l1: "load_sequence two_accounts
     = Inr (registry_document 1 ''t3'' [1, 2]
              [(''1'', example_info ''t1''), (''2'', example_info ''t2'')])"
    by code_simp
  have s1: "py_getitem (registry_document a t [1, 2] accs) ''sequence''
              = Inr (JList [JInt 1, JInt 2])"
    and a1: "py_getitem (registry_document a t [1, 2] accs) ''activeAccountNumber'' = Inr (JInt a)"
    for a t accs
    by (simp_all add: getitem_registry)
  have l2: "load_sequence (fst (switch_to_account (quiet_env ''t4'' []) two_accounts (JInt 2)))
     = Inr (registry_document 2 ''t4'' [1, 2]
              [(''1'', example_info ''t1''), (''2'', example_info ''t2'')])"
    by code_simp
  have l3: "load_sequence stale_world
     = Inr (registry_document 7 ''t3'' [1, 2]
              [(''1'', example_info ''t1''), (''2'', example_info ''t2'')])"
    by code_simp
  have 1: "switch_to_next_account (quiet_env ''t4'' []) example_world
     = (example_world, Inr No_accounts_registered)"
    using switch_to_next_account_follows_sequence
            [OF l0 s0 a0 int_value.simps(1), of "quiet_env ''t4'' []"]
    by simp
  have 2: "switch_to_next_account (quiet_env ''t4'' []) two_accounts
     = switch_to_account (quiet_env ''t4'' []) two_accounts (JInt 2)"
    using switch_to_next_account_follows_sequence
            [OF l1 s1 a1 int_value.simps(1), of "quiet_env ''t4'' []",
             THEN conjunct2, THEN conjunct1, rule_format, of 0]
    by (simp add: py_eq_int_def)
  have 3: "switch_to_next_account (quiet_env ''t5'' [])
       (fst (switch_to_account (quiet_env ''t4'' []) two_accounts (JInt 2)))
     = switch_to_account (quiet_env ''t5'' [])
         (fst (switch_to_account (quiet_env ''t4'' []) two_accounts (JInt 2))) (JInt 1)"
    using switch_to_next_account_follows_sequence
            [OF l2 s1 a1 int_value.simps(1), of "quiet_env ''t5'' []",
             THEN conjunct2, THEN conjunct1, rule_format, of 1]
    by (simp add: py_eq_int_def)
  have 4: "switch_to_next_account (quiet_env ''t4'' []) stale_world
     = switch_to_account (quiet_env ''t4'' []) stale_world (JInt 1)"
    using switch_to_next_account_follows_sequence
            [OF l3 s1 a1 int_value.simps(1), of "quiet_env ''t4'' []",
             THEN conjunct2, THEN conjunct2]
    by (simp add: py_eq_int_def)
  show ?thesis by (rule conjI [OF 1 conjI [OF 2 conjI [OF 3 4]]])
qed

section \<open>Adding an account\<close>

lemma map_of_dict_update: "map_of (dict_update k v kvs) = (map_of kvs)(k \<mapsto> v)"
  by (induction kvs) auto

lemma isinstance_list_iff: "isinstance_list s \<longleftrightarrow> (\<exists>xs. s = JList xs)"
  by (cases s) simp_all

lemma isinstance_dict_iff: "isinstance_dict s \<longleftrightarrow> (\<exists>kvs. s = JDict kvs)"
  by (cases s) simp_all

lemma validate_sequence_data_dict:
  "validate_sequence_data (JDict kvs) = Inr () \<longleftrightarrow> registry_fields kvs"
  by (auto simp: validate_sequence_data_def required_fields_def check_data_types_def
        and_then_def registry_fields_def isinstance_list_iff isinstance_dict_iff
        split: option.splits)

lemma validate_sequence_data_iff:
  "validate_sequence_data d = Inr () \<longleftrightarrow> (\<exists>kvs. d = JDict kvs \<and> registry_fields kvs)"
proof (cases d)
  case (JDict kvs)
  then show ?thesis by (simp add: validate_sequence_data_dict)
qed (auto simp: validate_sequence_data_def and_then_def check_data_types_def split: sum.splits)

lemma load_sequence_valid: "load_sequence w = Inr d \<Longrightarrow> validate_sequence_data d = Inr ()"
  by (auto simp: load_sequence_def encodings_to_try_def
        split: option.splits attempt.splits sum.splits)

lemma new_registry_data_valid:
  assumes "new_registry_data env w cfg = Inr (n, data)"
  shows "validate_sequence_data data = Inr ()"
proof -
  from assms obtain d where d: "load_sequence w = Inr d"
    by (auto simp: new_registry_data_def and_then_def Let_def split: sum.splits)
  from load_sequence_valid [OF d] obtain kvs where kvs: "d = JDict kvs" "registry_fields kvs"
    by (auto simp: validate_sequence_data_iff)
  from assms d kvs show ?thesis
    by (auto simp: new_registry_data_def and_then_def Let_def append_at_def setitem_at_def
          validate_sequence_data_dict registry_fields_def map_of_dict_update
          split: sum.splits option.splits)
qed

lemma accepted_shape_truthy: "accepted_shape c \<Longrightarrow> truthy c"
  by (cases c) auto

lemma save_both_cases:
  "save_both env w name c c =
     (if accepted_shape c
      then ((if io_ok env (Credentials_backup name)
             then (if io_ok env (Config_backup name) then w(Config_backup name \<mapsto> written c) else w)
                    (Credentials_backup name \<mapsto> written c)
             else (if io_ok env (Config_backup name) then w(Config_backup name \<mapsto> written c) else w)),
            io_ok env (Config_backup name) \<and> io_ok env (Credentials_backup name))
      else (w, False))"
  by (simp add: save_both_def save_config_file_cases)

lemma add_account_prepared:
  assumes "accepted_shape (get_claude_config w)"
    and "new_registry_data env w (get_claude_config w) = Inr (n, data)"
  shows "add_account env w =
     (if io_ok env Sequence_file
      then (case backup_account env (w(Sequence_file \<mapsto> written data)) (JInt n)
                   (get_claude_config w) (get_claude_config w) of
              (w2, success) \<Rightarrow> (w2, Inr (if success then Added else Failed_to_backup)))
      else (w, Inr (Failed_to_add IOError)))"
proof -
  from assms(1) have "fst (validate_claude_config (get_claude_config w))"
    by (simp add: validate_iff_shape)
  then obtain m where "validate_claude_config (get_claude_config w) = (True, m)"
    by (cases "validate_claude_config (get_claude_config w)") auto
  with assms accepted_shape_truthy [OF assms(1)] new_registry_data_valid [OF assms(2)]
  show ?thesis
    by (simp add: add_account_def Let_def save_sequence_def)
qed

text \<open>
  Claim C6. \<^verbatim>\<open>add_account\<close> always returns (no exception leaves it). It returns \<^verbatim>\<open>True\<close>
  only if the writes of the registry, of the configuration copy and of the credentials
  copy all went through, the three files then holding the new registry document and the
  payload. When the registry write goes through and one of the two copies cannot be
  written, it returns \<^verbatim>\<open>False\<close> at the exit of the failed backup, the registry already
  holding the new entry.
\<close>

theorem add_account_succeeds_only_with_registry_and_backup:
  assumes "add_account env w = (w', r)"
  shows "(\<exists>s. r = Inr s) \<and>
    (r = Inr Added \<longrightarrow>
       (\<exists>n data. new_registry_data env w (get_claude_config w) = Inr (n, data) \<and>
          io_ok env Sequence_file \<and> io_ok env (Config_backup (str_int n)) \<and>
          io_ok env (Credentials_backup (str_int n)) \<and>
          w' Sequence_file = Some (written data) \<and>
          w' (Config_backup (str_int n)) = Some (written (get_claude_config w)) \<and>
          w' (Credentials_backup (str_int n)) = Some (written (get_claude_config w)))) \<and>
    (\<forall>n data. accepted_shape (get_claude_config w) \<and>
          new_registry_data env w (get_claude_config w) = Inr (n, data) \<and>
          io_ok env Sequence_file \<and>
          \<not> (io_ok env (Config_backup (str_int n)) \<and> io_ok env (Credentials_backup (str_int n))) \<longrightarrow>
          r = Inr Failed_to_backup \<and> \<not> returned Failed_to_backup \<and>
          w' Sequence_file = Some (written data))"
proof -
  have returns: "\<exists>s. r = Inr s"
    using assms
    by (auto simp: add_account_def Let_def split: if_splits prod.splits bool.splits sum.splits)
  have success: "r = Inr Added \<longrightarrow>
       (\<exists>n data. new_registry_data env w (get_claude_config w) = Inr (n, data) \<and>
          io_ok env Sequence_file \<and> io_ok env (Config_backup (str_int n)) \<and>
          io_ok env (Credentials_backup (str_int n)) \<and>
          w' Sequence_file = Some (written data) \<and>
          w' (Config_backup (str_int n)) = Some (written (get_claude_config w)) \<and>
          w' (Credentials_backup (str_int n)) = Some (written (get_claude_config w)))"
  proof
    assume added: "r = Inr Added"
    with assms have shape: "accepted_shape (get_claude_config w)"
      by (auto simp: add_account_def Let_def validate_iff_shape [symmetric]
            split: if_splits prod.splits bool.splits sum.splits)
    from assms added obtain n data
      where nd: "new_registry_data env w (get_claude_config w) = Inr (n, data)"
      by (auto simp: add_account_def Let_def split: if_splits prod.splits bool.splits sum.splits)
    from assms added show "\<exists>n data. new_registry_data env w (get_claude_config w) = Inr (n, data) \<and>
          io_ok env Sequence_file \<and> io_ok env (Config_backup (str_int n)) \<and>
          io_ok env (Credentials_backup (str_int n)) \<and>
          w' Sequence_file = Some (written data) \<and>
          w' (Config_backup (str_int n)) = Some (written (get_claude_config w)) \<and>
          w' (Credentials_backup (str_int n)) = Some (written (get_claude_config w))"
      unfolding add_account_prepared [OF shape nd]
      by (intro exI [of _ n] exI [of _ data])
         (auto simp: nd save_both_cases shape split: if_splits prod.splits)
  qed
  have failure: "\<forall>n data. accepted_shape (get_claude_config w) \<and>
          new_registry_data env w (get_claude_config w) = Inr (n, data) \<and>
          io_ok env Sequence_file \<and>
          \<not> (io_ok env (Config_backup (str_int n)) \<and> io_ok env (Credentials_backup (str_int n))) \<longrightarrow>
          r = Inr Failed_to_backup \<and> \<not> returned Failed_to_backup \<and>
          w' Sequence_file = Some (written data)"
  proof (intro allI impI, elim conjE)
    fix n data
    assume shape: "accepted_shape (get_claude_config w)"
      and nd: "new_registry_data env w (get_claude_config w) = Inr (n, data)"
      and reg: "io_ok env Sequence_file"
      and bad: "\<not> (io_ok env (Config_backup (str_int n)) \<and> io_ok env (Credentials_backup (str_int n)))"
    from assms reg bad show "r = Inr Failed_to_backup \<and> \<not> returned Failed_to_backup \<and>
          w' Sequence_file = Some (written data)"
      unfolding add_account_prepared [OF shape nd]
      by (auto simp: save_both_cases shape split: if_splits prod.splits)
  qed
  show ?thesis by (rule conjI [OF returns conjI [OF success failure]])
qed

theorem add_account_succeeds_only_with_registry_and_backup_witness:
  "snd (add_account (quiet_env ''t1'' []) example_world) = Inr Added \<and>
   (\<exists>n data. new_registry_data (quiet_env ''t1'' []) example_world (get_claude_config example_world)
                = Inr (n, data) \<and>
          io_ok (quiet_env ''t1'' []) Sequence_file \<and>
          io_ok (quiet_env ''t1'' []) (Config_backup (str_int n)) \<and>
          io_ok (quiet_env ''t1'' []) (Credentials_backup (str_int n)) \<and>
          fst (add_account (quiet_env ''t1'' []) example_world) Sequence_file = Some (written data) \<and>
          fst (add_account (quiet_env ''t1'' []) example_world) (Config_backup (str_int n))
            = Some (written (get_claude_config example_world)) \<and>
          fst (add_account (quiet_env ''t1'' []) example_world) (Credentials_backup (str_int n))
            = Some (written (get_claude_config example_world))) \<and>
   snd (add_account (credentials_write_fails ''t1'') example_world) = Inr Failed_to_backup \<and>
   \<not> returned Failed_to_backup \<and>
   fst (add_account (credentials_write_fails ''t1'') example_world) Sequence_file
     = Some (written (registry_document 1 ''t1'' [1] [(''1'', example_info ''t1'')]))"
proof -
  have added: "snd (add_account (quiet_env ''t1'' []) example_world) = Inr Added"
    by code_simp
  note good = add_account_succeeds_only_with_registry_and_backup
    [of "quiet_env ''t1'' []" example_world
        "fst (add_account (quiet_env ''t1'' []) example_world)"
        "snd (add_account (quiet_env ''t1'' []) example_world)", OF surjective_pairing]
  from good [THEN conjunct2, THEN conjunct1] added
  have 1: "\<exists>n data. new_registry_data (quiet_env ''t1'' []) example_world (get_claude_config example_world)
                = Inr (n, data) \<and>
          io_ok (quiet_env ''t1'' []) Sequence_file \<and>
          io_ok (quiet_env ''t1'' []) (Config_backup (str_int n)) \<and>
          io_ok (quiet_env ''t1'' []) (Credentials_backup (str_int n)) \<and>
          fst (add_account (quiet_env ''t1'' []) example_world) Sequence_file = Some (written data) \<and>
          fst (add_account (quiet_env ''t1'' []) example_world) (Config_backup (str_int n))
            = Some (written (get_claude_config example_world)) \<and>
          fst (add_account (quiet_env ''t1'' []) example_world) (Credentials_backup (str_int n))
            = Some (written (get_claude_config example_world))"
    by (rule mp)
  have hyp: "accepted_shape (get_claude_config example_world) \<and>
     new_registry_data (credentials_write_fails ''t1'') example_world (get_claude_config example_world)
       = Inr (1, registry_document 1 ''t1'' [1] [(''1'', example_info ''t1'')]) \<and>
     io_ok (credentials_write_fails ''t1'') Sequence_file \<and>
     \<not> (io_ok (credentials_write_fails ''t1'') (Config_backup (str_int 1)) \<and>
         io_ok (credentials_write_fails ''t1'') (Credentials_backup (str_int 1)))"
    by code_simp
  note bad = add_account_succeeds_only_with_registry_and_backup
    [of "credentials_write_fails ''t1''" example_world
        "fst (add_account (credentials_write_fails ''t1'') example_world)"
        "snd (add_account (credentials_write_fails ''t1'') example_world)", OF surjective_pairing]
  from bad [THEN conjunct2, THEN conjunct2, rule_format, OF hyp]
  have 2: "snd (add_account (credentials_write_fails ''t1'') example_world) = Inr Failed_to_backup \<and>
   \<not> returned Failed_to_backup \<and>
   fst (add_account (credentials_write_fails ''t1'') example_world) Sequence_file
     = Some (written (registry_document 1 ''t1'' [1] [(''1'', example_info ''t1'')]))" .
  show ?thesis by (rule conjI [OF added conjI [OF 1 2]])
qed

section \<open>Switching to the active account\<close>

lemma dict_update_same: "map_of kvs k = Some v \<Longrightarrow> dict_update k v kvs = kvs"
  by (induction kvs) (auto split: if_splits)

lemma load_config_file_written:
  "w p = Some (written d) \<Longrightarrow> load_config_file w p = Inr d"
  by (simp add: load_config_file_def encodings_to_try_def written_def)

lemma accepted_shape_not_None: "accepted_shape p \<Longrightarrow> \<not> is_None (Inr p)"
  by (cases p) simp_all

lemma get_claude_config_written:
  "w Claude_config = Some (written p) \<Longrightarrow> accepted_shape p \<Longrightarrow> get_claude_config w = p"
  by (simp add: get_claude_config_def load_config_file_written accepted_shape_not_None)

text \<open>
  Claim C8, as amended. A successful \<^verbatim>\<open>switch_to_account\<close> to the account that is already
  active leaves every field of the registry document as it was except \<^verbatim>\<open>lastUpdated\<close>,
  which is set to the current time; and the live configuration afterwards is the payload
  that the backup of that account held, so it is unchanged when it was equal to that
  payload.
\<close>

theorem switch_to_active_account_restores_backup:
  assumes "switch_to_account env w target = (w', Inr Switched)"
    and "load_sequence w = Inr data" and "find_account data target = Inr (Some n)"
    and "py_getitem data ''activeAccountNumber'' = Inr (JInt n)"
    and "load_config_file w (Config_backup (str_int n)) = Inr payload"
  shows "\<exists>data'. load_sequence w' = Inr data' \<and>
           py_setitem data ''lastUpdated'' (JStr (now env 1)) = Inr data' \<and>
           (\<forall>k. k \<noteq> ''lastUpdated'' \<longrightarrow> py_getitem data' k = py_getitem data k) \<and>
           py_getitem data' ''lastUpdated'' = Inr (JStr (now env 1)) \<and>
           get_claude_config w' = payload \<and>
           (get_claude_config w = payload \<longrightarrow> get_claude_config w' = get_claude_config w)"
proof -
  from switch_to_account_Switched [OF assms(1)] assms(2,3,5)
  obtain data' where shape: "accepted_shape payload"
    and upd: "and_then (py_setitem data ''activeAccountNumber'' (JInt n))
                (\<lambda>d. py_setitem d ''lastUpdated'' (JStr (now env 1))) = Inr data'"
    and w': "w' = (backup_current env w data)(Claude_config \<mapsto> written payload,
                                             Sequence_file \<mapsto> written data')"
    by auto
  from load_sequence_valid [OF assms(2)] obtain kvs
    where kvs: "data = JDict kvs" and fields: "registry_fields kvs"
    by (auto simp: validate_sequence_data_iff)
  from assms(4) kvs have "map_of kvs ''activeAccountNumber'' = Some (JInt n)"
    by (auto split: option.splits)
  then have same: "dict_update ''activeAccountNumber'' (JInt n) kvs = kvs"
    by (rule dict_update_same)
  with upd kvs have data': "data' = JDict (dict_update ''lastUpdated'' (JStr (now env 1)) kvs)"
    by (simp add: and_then_def)
  from fields have "registry_fields (dict_update ''lastUpdated'' (JStr (now env 1)) kvs)"
    by (simp add: registry_fields_def map_of_dict_update)
  then have valid: "validate_sequence_data data' = Inr ()"
    by (simp add: data' validate_sequence_data_dict)
  from w' have "w' Sequence_file = Some (written data')" by simp
  from load_sequence_written [of w' data', OF this] valid
  have 1: "load_sequence w' = Inr data'" by simp
  from kvs data' have 2: "py_setitem data ''lastUpdated'' (JStr (now env 1)) = Inr data'"
    by simp
  from kvs data' have 3: "\<forall>k. k \<noteq> ''lastUpdated'' \<longrightarrow> py_getitem data' k = py_getitem data k"
    by (simp add: map_of_dict_update)
  from data' have 4: "py_getitem data' ''lastUpdated'' = Inr (JStr (now env 1))"
    by (simp add: map_of_dict_update)
  from w' have "w' Claude_config = Some (written payload)" by simp
  from get_claude_config_written [of w' payload, OF this shape]
  have 5: "get_claude_config w' = payload" .
  from 1 2 3 4 5 show ?thesis by simp
qed

text \<open>
  Claim C8 as stated fails. Switching to the active account 1 right after its
  registration changes \<^verbatim>\<open>lastUpdated\<close> in the registry; and once the host application has
  rewritten the live configuration, the same switch puts the older backup in its place.
\<close>

theorem switch_to_active_account_changes_registry_and_live_config:
  "load_sequence (run [adding ''t1''] example_world)
     = Inr (registry_document 1 ''t1'' [1] [(''1'', example_info ''t1'')]) \<and>
   snd (switch_to_account (quiet_env ''t2'' []) (run [adding ''t1''] example_world) (JStr ''1''))
     = Inr Switched \<and>
   load_sequence (fst (switch_to_account (quiet_env ''t2'' [])
                         (run [adding ''t1''] example_world) (JStr ''1'')))
     = Inr (registry_document 1 ''t2'' [1] [(''1'', example_info ''t1'')]) \<and>
   load_sequence refreshed_world
     = Inr (registry_document 1 ''t1'' [1] [(''1'', example_info ''t1'')]) \<and>
   load_config_file refreshed_world (Config_backup ''1'') = Inr (example_config ''k1'') \<and>
   get_claude_config refreshed_world = example_config ''k2'' \<and>
   snd (switch_to_account (quiet_env ''t2'' []) refreshed_world (JStr ''1'')) = Inr Switched \<and>
   get_claude_config (fst (switch_to_account (quiet_env ''t2'' []) refreshed_world (JStr ''1'')))
     = example_config ''k1'' \<and>
   get_claude_config (fst (switch_to_account (quiet_env ''t2'' []) refreshed_world (JStr ''1'')))
     \<noteq> get_claude_config refreshed_world \<and>
   load_sequence (fst (switch_to_account (quiet_env ''t2'' []) refreshed_world (JStr ''1'')))
     \<noteq> load_sequence refreshed_world"
  by code_simp

theorem switch_to_active_account_restores_backup_witness:
  "snd (switch_to_account (quiet_env ''t2'' []) refreshed_world (JStr ''1'')) = Inr Switched \<and>
   (\<exists>data'. load_sequence (fst (switch_to_account (quiet_env ''t2'' []) refreshed_world (JStr ''1'')))
               = Inr data' \<and>
           py_setitem (registry_document 1 ''t1'' [1] [(''1'', example_info ''t1'')])
             ''lastUpdated'' (JStr (now (quiet_env ''t2'' []) 1)) = Inr data' \<and>
           (\<forall>k. k \<noteq> ''lastUpdated'' \<longrightarrow>
                py_getitem data' k
                  = py_getitem (registry_document 1 ''t1'' [1] [(''1'', example_info ''t1'')]) k) \<and>
           py_getitem data' ''lastUpdated'' = Inr (JStr (now (quiet_env ''t2'' []) 1)) \<and>
           get_claude_config (fst (switch_to_account (quiet_env ''t2'' []) refreshed_world (JStr ''1'')))
             = example_config ''k1'' \<and>
           (get_claude_config refreshed_world = example_config ''k1'' \<longrightarrow>
              get_claude_config (fst (switch_to_account (quiet_env ''t2'' []) refreshed_world (JStr ''1'')))
                = get_claude_config refreshed_world))"
proof -
  have s: "snd (switch_to_account (quiet_env ''t2'' []) refreshed_world (JStr ''1'')) = Inr Switched"
    by code_simp
  have l: "load_sequence refreshed_world
             = Inr (registry_document 1 ''t1'' [1] [(''1'', example_info ''t1'')])"
    by code_simp
  have f: "find_account (registry_document 1 ''t1'' [1] [(''1'', example_info ''t1'')]) (JStr ''1'')
             = Inr (Some 1)"
    by code_simp
  have a: "py_getitem (registry_document 1 ''t1'' [1] [(''1'', example_info ''t1'')])
             ''activeAccountNumber'' = Inr (JInt 1)"
    by (simp add: getitem_registry)
  have p: "load_config_file refreshed_world (Config_backup (str_int 1)) = Inr (example_config ''k1'')"
    by code_simp
  have sw: "switch_to_account (quiet_env ''t2'' []) refreshed_world (JStr ''1'')
              = (fst (switch_to_account (quiet_env ''t2'' []) refreshed_world (JStr ''1'')),
                 Inr Switched)"
    using s by (metis prod.collapse)
  show ?thesis
    by (rule conjI [OF s switch_to_active_account_restores_backup [OF sw l f a p]])
qed

end
